theory Spec2Isabelle
  imports Main "HOL-Library.Sublist" "HOL-Library.AList"
begin

section \<open>Python strings\<close>

text \<open>
  Strings are lists of characters. The helpers below are the \<open>str\<close> methods the three
  scripts call, written so that they compute.
\<close>

definition startswith :: "string \<Rightarrow> string \<Rightarrow> bool" where
  \<comment> \<open>\<open>s.startswith(pre)\<close>\<close>
  "startswith s pre = prefix pre s"

definition endswith :: "string \<Rightarrow> string \<Rightarrow> bool" where
  \<comment> \<open>\<open>s.endswith(suf)\<close>\<close>
  "endswith s suf = prefix (rev suf) (rev s)"

fun contains :: "string \<Rightarrow> string \<Rightarrow> bool" where
  \<comment> \<open>\<open>sub in s\<close>\<close>
  "contains sub [] = (sub = [])"
| "contains sub (c # cs) = (prefix sub (c # cs) \<or> contains sub cs)"

fun split_on :: "char \<Rightarrow> string \<Rightarrow> string list" where
  \<comment> \<open>\<open>s.split(sep)\<close> for a separator of one character\<close>
  "split_on sep [] = [[]]"
| "split_on sep (c # cs) =
     (if c = sep then [] # split_on sep cs
      else (case split_on sep cs of [] \<Rightarrow> [[c]] | w # ws \<Rightarrow> (c # w) # ws))"

fun replace_str :: "string \<Rightarrow> string \<Rightarrow> string \<Rightarrow> string" where
  \<comment> \<open>\<open>s.replace(old, new)\<close>: every occurrence, left to right, without overlap\<close>
  "replace_str old new [] = (if old = [] then new else [])"
| "replace_str old new (c # cs) =
     (if old = [] then new @ c # replace_str old new cs
      else if prefix old (c # cs) then new @ replace_str old new (drop (length old - 1) cs)
      else c # replace_str old new cs)"

definition isdigit :: "char \<Rightarrow> bool" where
  \<comment> \<open>\<open>c.isdigit()\<close> on the ASCII range\<close>
  "isdigit c = (c \<in> set ''0123456789'')"

definition isspace :: "char \<Rightarrow> bool" where
  \<comment> \<open>\<open>c.isspace()\<close> on the ASCII range\<close>
  "isspace c = (c \<in> {CHR '' '', CHR 0x09, CHR 0x0A, CHR 0x0B, CHR 0x0C, CHR 0x0D,
                       CHR 0x1C, CHR 0x1D, CHR 0x1E, CHR 0x1F})"

definition strip :: "string \<Rightarrow> string" where
  \<comment> \<open>\<open>s.strip()\<close>\<close>
  "strip s = rev (dropWhile isspace (rev (dropWhile isspace s)))"

fun str_nat :: "nat \<Rightarrow> string" where
  \<comment> \<open>\<open>str(n)\<close> for a natural number\<close>
  "str_nat n =
     (if n < 10 then [char_of (48 + n)]
      else str_nat (n div 10) @ [char_of (48 + n mod 10)])"

declare str_nat.simps [simp del]

datatype exn = IndexError | FileNotFoundError | SameFileError | RuntimeError | URLError

section \<open>copy\_libvips\_windows.py\<close>

subsection \<open>get\_version\_from\_filename\<close>

text \<open>
  The loop \<open>for part in parts: if part[0].isdigit(): return part\<close>. Indexing an empty
  component raises \<open>IndexError\<close>.
\<close>

fun first_version :: "string list \<Rightarrow> exn + string" where
  "first_version [] = Inr ''unknown''"
| "first_version (part # parts) =
     (case part of
        [] \<Rightarrow> Inl IndexError
      | c # _ \<Rightarrow> if isdigit c then Inr part else first_version parts)"

definition get_version_from_filename :: "string \<Rightarrow> exn + string" where
  "get_version_from_filename filename =
     first_version (split_on CHR ''-'' (replace_str ''.zip'' '''' filename))"

definition starts_with_digit :: "string \<Rightarrow> bool" where
  "starts_with_digit p = (case p of [] \<Rightarrow> False | c # _ \<Rightarrow> isdigit c)"

definition strip_zip_suffix :: "string \<Rightarrow> string" where
  \<comment> \<open>the specification's wording, "the name with the .zip suffix removed"\<close>
  "strip_zip_suffix s = (if endswith s ''.zip'' then take (length s - 4) s else s)"

section \<open>Paths and the file system\<close>

text \<open>
  A \<open>pathlib\<close> path on POSIX: the anchor (empty, \<open>/\<close> or \<open>//\<close>) and the components
  after it. \<open>Path s\<close> parses a string as the constructor of \<open>pathlib\<close> does: empty
  components and \<open>.\<close> are dropped, exactly two leading slashes are kept.
\<close>

datatype path = PosixPath (anchor: string) (comps: "string list")

fun join_str :: "string \<Rightarrow> string list \<Rightarrow> string" where
  \<comment> \<open>\<open>sep.join(xs)\<close>\<close>
  "join_str sep [] = []"
| "join_str sep [x] = x"
| "join_str sep (x # y # ys) = x @ sep @ join_str sep (y # ys)"

definition Path :: "string \<Rightarrow> path" where
  "Path s =
     PosixPath
       (if startswith s ''//'' \<and> \<not> startswith s ''///'' then ''//''
        else if startswith s ''/'' then ''/'' else '''')
       (filter (\<lambda>c. c \<noteq> '''' \<and> c \<noteq> ''.'') (split_on CHR ''/'' s))"

definition path_str :: "path \<Rightarrow> string" where
  \<comment> \<open>\<open>str(p)\<close>\<close>
  "path_str p =
     (if anchor p = '''' \<and> comps p = [] then ''.''
      else anchor p @ join_str ''/'' (comps p))"

definition path_name :: "path \<Rightarrow> string" where
  \<comment> \<open>\<open>p.name\<close>\<close>
  "path_name p = (if comps p = [] then '''' else last (comps p))"

definition is_absolute :: "path \<Rightarrow> bool" where
  "is_absolute p = (anchor p \<noteq> '''')"

definition joinpath :: "path \<Rightarrow> string \<Rightarrow> path" where
  \<comment> \<open>\<open>p / s\<close>\<close>
  "joinpath p s =
     (let q = Path s in
      if is_absolute q then q else PosixPath (anchor p) (comps p @ comps q))"

text \<open>
  The file system is the finite list of the regular files that can be read, each path
  with its content; symbolic links are followed by \<open>realpath\<close> on the source side only
  and directories are not entries. \<open>fnmatch\<close> knows \<open>*\<close> and \<open>?\<close>, which is all the
  patterns of the scripts use; \<open>glob\<close> returns the files below a directory whose
  components match the components of the pattern, in the order of the list.
\<close>

type_synonym 'c filesystem = "(path \<times> 'c) list"

definition exists :: "'c filesystem \<Rightarrow> path \<Rightarrow> bool" where
  "exists fs p = (map_of fs p \<noteq> None)"

fun fnmatch :: "string \<Rightarrow> string \<Rightarrow> bool" where
  \<comment> \<open>\<open>fnmatch(name, pat)\<close>\<close>
  "fnmatch [] [] = True"
| "fnmatch [] (p # ps) = (p = CHR ''*'' \<and> fnmatch [] ps)"
| "fnmatch (c # cs) [] = False"
| "fnmatch (c # cs) (p # ps) =
     (if p = CHR ''*'' then fnmatch (c # cs) ps \<or> fnmatch cs (p # ps)
      else if p = CHR ''?'' then fnmatch cs ps
      else p = c \<and> fnmatch cs ps)"

definition glob :: "'c filesystem \<Rightarrow> path \<Rightarrow> string \<Rightarrow> path list" where
  \<comment> \<open>\<open>d.glob(pat)\<close>\<close>
  "glob fs d pat =
     (let pats = comps (Path pat); k = length (comps d) in
      filter (\<lambda>p. anchor p = anchor d \<and> take k (comps p) = comps d \<and>
                   list_all2 fnmatch (drop k (comps p)) pats)
        (remdups (map fst fs)))"

section \<open>State, trace and the external collaborators\<close>

text \<open>
  The trace records, in order, every call the modelled functions make to a collaborator
  that is not modelled further: the logger (level and text), \<open>shutil.copy2\<close>, the
  dependency lister (\<open>get_so_deps\<close>, \<open>get_dylib_deps\<close>) and \<open>run_command\<close>.
\<close>

datatype level = DEBUG | INFO | WARNING | ERROR

datatype event =
    Log level string
  | Copy2 path path
  | ListDeps path
  | Run "string list"

record 'c state =
  copied :: "string set"
  files :: "'c filesystem"
  trace :: "event list"

text \<open>
  What the operating system answers: symbolic-link resolution, and the list of direct
  dependencies the lister reports for the file at a path (the parsed output of
  \<open>ldd\<close>/\<open>readelf\<close> on Linux, of \<open>otool -L\<close> on macOS).
\<close>

record 'c host =
  realpath :: "path \<Rightarrow> path"
  is_symlink :: "path \<Rightarrow> bool"
  list_deps :: "'c filesystem \<Rightarrow> path \<Rightarrow> string list"

definition logger :: "level \<Rightarrow> string \<Rightarrow> 'c state \<Rightarrow> 'c state" where
  "logger lvl msg s = s\<lparr>trace := trace s @ [Log lvl msg]\<rparr>"

definition copy2 :: "path \<Rightarrow> path \<Rightarrow> 'c state \<Rightarrow> exn + 'c state" where
  \<comment> \<open>\<open>shutil.copy2(src, dst)\<close>: the source must exist and must not be the destination\<close>
  "copy2 src dst s =
     (case map_of (files s) src of
        None \<Rightarrow> Inl FileNotFoundError
      | Some c \<Rightarrow>
          if src = dst then Inl SameFileError
          else Inr (s\<lparr>files := AList.update dst c (files s),
                      trace := trace s @ [Copy2 src dst]\<rparr>))"

text \<open>
  A \<open>for\<close> loop whose body may raise or run out of fuel: the first such outcome ends
  the loop.
\<close>

primrec for_each ::
  "('a \<Rightarrow> 's \<Rightarrow> (exn + 's) option) \<Rightarrow> 'a list \<Rightarrow> 's \<Rightarrow> (exn + 's) option" where
  "for_each body [] s = Some (Inr s)"
| "for_each body (x # xs) s =
     (case body x s of
        None \<Rightarrow> None
      | Some (Inl e) \<Rightarrow> Some (Inl e)
      | Some (Inr s') \<Rightarrow> for_each body xs s')"

section \<open>copy\_libvips\_windows.py, continued\<close>

subsection \<open>find\_asset\_for\_arch and main\<close>

definition ARCH_MAP :: "(string \<times> string) list" where
  "ARCH_MAP =
     [(''x64'', ''w64''), (''x86_64'', ''w64''), (''amd64'', ''w64''),
      (''arm64'', ''arm64''), (''aarch64'', ''arm64'')]"

definition dict_get :: "('k \<times> 'v) list \<Rightarrow> 'k \<Rightarrow> 'v \<Rightarrow> 'v" where
  \<comment> \<open>\<open>d.get(key, default)\<close>\<close>
  "dict_get d k dflt = (case map_of d k of None \<Rightarrow> dflt | Some v \<Rightarrow> v)"

text \<open>
  The release information is the decoded JSON answer: an optional tag and an optional
  list of assets, each with its name and its download URL.
\<close>

record asset =
  asset_name :: string
  browser_download_url :: string

record release_info =
  tag_name :: "string option"
  assets :: "asset list option"

definition assets_of :: "release_info \<Rightarrow> asset list" where
  \<comment> \<open>\<open>release_info.get("assets", [])\<close>\<close>
  "assets_of ri = (case assets ri of None \<Rightarrow> [] | Some l \<Rightarrow> l)"

definition asset_matches :: "string \<Rightarrow> string \<Rightarrow> string \<Rightarrow> bool" where
  \<comment> \<open>the test of both loops: \<open>arch_suffix in name and build_type in name and name.endswith(".zip")\<close>\<close>
  "asset_matches arch_suffix build_type name =
     (contains arch_suffix name \<and> contains build_type name \<and> endswith name ''.zip'')"

text \<open>A log is a list of \<open>Log\<close> events; the function returns what it logs with its result.\<close>

definition find_asset_for_arch ::
  "release_info \<Rightarrow> string \<Rightarrow> string \<Rightarrow> event list \<times> (string \<times> string) option" where
  "find_asset_for_arch ri arch build_type =
     (let arch_suffix = dict_get ARCH_MAP arch arch;
          log0 = [Log INFO (''Looking for architecture: '' @ arch @ '' (suffix: '' @ arch_suffix
                    @ ''), build type: '' @ build_type)]
      in case find (\<lambda>a. asset_matches arch_suffix build_type (asset_name a) \<and>
                         \<not> contains ''ffi'' (asset_name a)) (assets_of ri) of
           Some a \<Rightarrow>
             (log0 @ [Log INFO (''Found asset: '' @ asset_name a)],
              Some (browser_download_url a, asset_name a))
         | None \<Rightarrow>
             (case find (\<lambda>a. asset_matches arch_suffix build_type (asset_name a)) (assets_of ri) of
                Some a \<Rightarrow>
                  (log0 @ [Log INFO (''Found fallback asset: '' @ asset_name a)],
                   Some (browser_download_url a, asset_name a))
              | None \<Rightarrow> (log0, None)))"

text \<open>
  How the process ends: \<open>sys.exit(n)\<close>, or an exception nobody catches, on which the
  interpreter exits with status 1.
\<close>

datatype outcome = Exit int | Uncaught exn

definition exit_code :: "outcome \<Rightarrow> int" where
  "exit_code out = (case out of Exit n \<Rightarrow> n | Uncaught e \<Rightarrow> 1)"

record common_args =
  args_output :: path
  args_include_headers :: bool
  args_verbose :: bool

record windows_args = common_args +
  args_arch :: string
  args_build_type :: string
  args_version :: string

text \<open>
  \<open>main\<close> of the Windows script. Its two dealings with the network and the disk are
  arguments: \<open>fetched\<close> is what \<open>get_latest_release_info\<close> gets (\<open>Inl\<close> the text of a
  \<open>URLError\<close>), \<open>install url filename\<close> the outcome of download, extraction and copy
  (\<open>Inl\<close> an exception). The log is followed up to the line \<open>Version:\<close>; the summary a
  successful run prints afterwards is left out.
\<close>

definition main_windows ::
  "string + release_info \<Rightarrow> (string \<Rightarrow> string \<Rightarrow> exn + string list) \<Rightarrow> windows_args
     \<Rightarrow> event list \<times> outcome" where
  "main_windows fetched install args =
     (let log1 =
            [Log INFO (replicate 60 CHR ''=''),
             Log INFO ''libvips Windows Binary Downloader'',
             Log INFO (replicate 60 CHR ''=''),
             Log INFO (''Target architecture: '' @ args_arch args),
             Log INFO (''Build type: '' @ args_build_type args),
             Log INFO (''Target version: '' @ args_version args),
             Log INFO (''Output directory: '' @ path_str (args_output args)),
             Log INFO ''Fetching latest release information from GitHub...'']
      in case fetched of
           Inl msg \<Rightarrow>
             (log1 @ [Log ERROR (''Failed to fetch release info: '' @ msg)], Uncaught URLError)
         | Inr release_info \<Rightarrow>
             let release_tag = (case tag_name release_info of None \<Rightarrow> ''unknown'' | Some t \<Rightarrow> t);
                 log2 = log1 @ [Log INFO (''Latest release: '' @ release_tag)];
                 (found_log, asset) =
                    find_asset_for_arch release_info (args_arch args) (args_build_type args);
                 log3 = log2 @ found_log
             in case asset of
                  None \<Rightarrow>
                    (log3 @
                     [Log ERROR (''Could not find a download for architecture: '' @ args_arch args
                        @ '', build type: '' @ args_build_type args),
                      Log ERROR ''Available assets:''] @
                     map (\<lambda>a. Log ERROR (''  - '' @ asset_name a)) (assets_of release_info),
                     Exit 1)
                | Some (download_url, filename) \<Rightarrow>
                    (case get_version_from_filename filename of
                       Inl e \<Rightarrow> (log3, Uncaught e)
                     | Inr version \<Rightarrow>
                         let log4 = log3 @
                               [Log INFO (''Download URL: '' @ download_url),
                                Log INFO (''Filename: '' @ filename),
                                Log INFO (''Version: '' @ version)]
                         in case install download_url filename of
                              Inl e \<Rightarrow> (log4, Uncaught e)
                            | Inr copied_files \<Rightarrow> (log4, Exit 0)))"

definition w64_release :: release_info where
  \<comment> \<open>a release that offers 64-bit x86 builds only\<close>
  "w64_release =
     \<lparr>tag_name = Some ''v8.17.0'',
      assets = Some [\<lparr>asset_name = ''vips-dev-w64-web-8.17.0-static-ffi.zip'',
                        browser_download_url = ''https://example.org/ffi.zip''\<rparr>,
                     \<lparr>asset_name = ''vips-dev-w64-web-8.17.0-static.zip'',
                        browser_download_url = ''https://example.org/web.zip''\<rparr>]\<rparr>"

definition windows_request :: "string \<Rightarrow> windows_args" where
  "windows_request a =
     \<lparr>args_output = Path ''out'', args_include_headers = False, args_verbose = False,
      args_arch = a, args_build_type = ''web'', args_version = ''latest''\<rparr>"

section \<open>copy\_libvips\_linux.py\<close>

definition system_prefixes :: "string list" where
  "system_prefixes = [''/lib'', ''/lib64'', ''/usr/lib'', ''/usr/lib64'']"

definition essential_libs :: "string list" where
  "essential_libs = [''libstdc++'', ''libgcc_s'']"

fun find_library :: "'c filesystem \<Rightarrow> string \<Rightarrow> path list \<Rightarrow> path option" where
  "find_library fs lib_name [] = None"
| "find_library fs lib_name (search_path # rest) =
     (let lib_path = joinpath search_path lib_name in
      if exists fs lib_path then Some lib_path
      else (case glob fs search_path (lib_name @ ''*'') of
              lib # _ \<Rightarrow> Some lib
            | [] \<Rightarrow> find_library fs lib_name rest))"

text \<open>
  The recursion is bounded by fuel: \<open>None\<close> is "no answer within this depth", \<open>Inl\<close> an
  uncaught exception, \<open>Inr\<close> the state on return. The set \<open>copied\<close> is the mutable
  argument of the source and travels in the state.
\<close>

primrec copy_shared_libs_recursive ::
  "nat \<Rightarrow> 'c host \<Rightarrow> path \<Rightarrow> path \<Rightarrow> path \<Rightarrow> path list \<Rightarrow> 'c state
     \<Rightarrow> (exn + 'c state) option" where
  "copy_shared_libs_recursive 0 H lib_path output_dir homebrew_prefix search_paths s = None"
| "copy_shared_libs_recursive (Suc n) H lib_path output_dir homebrew_prefix search_paths s =
     (let lib_name = path_name lib_path in
      if lib_name \<in> copied s then Some (Inr s)
      else if list_ex (startswith (path_str lib_path)) system_prefixes \<and>
              \<not> list_ex (\<lambda>essential. contains essential lib_name) essential_libs
      then Some (Inr (logger DEBUG (''Skipping system library: '' @ path_str lib_path) s))
      else if \<not> exists (files s) lib_path
      then Some (Inr (logger WARNING (''Library not found: '' @ path_str lib_path) s))
      else
        let s1 = logger INFO (''Copying: '' @ path_str lib_path) s;
            real_path = realpath H lib_path;
            dest_path = joinpath output_dir lib_name
        in case copy2 real_path dest_path s1 of
             Inl e \<Rightarrow> Some (Inl e)
           | Inr s2 \<Rightarrow>
               let s3 = s2\<lparr>copied := insert lib_name (copied s2)\<rparr>;
                   s4 = (if is_symlink H lib_path \<and> path_name lib_path \<noteq> path_name real_path
                         then logger INFO (''  (resolved from symlink: '' @ path_name lib_path
                                @ '' -> '' @ path_name real_path @ '')'') s3
                         else s3);
                   s5 = logger INFO (''  -> '' @ path_str dest_path) s4;
                   s6 = s5\<lparr>trace := trace s5 @ [ListDeps dest_path]\<rparr>;
                   deps = list_deps H (files s6) dest_path
               in for_each
                    (\<lambda>dep t.
                       let dep_path = Path dep in
                       if startswith (path_str dep_path) (path_str homebrew_prefix)
                       then copy_shared_libs_recursive n H dep_path output_dir
                              homebrew_prefix search_paths t
                       else if \<not> is_absolute dep_path
                       then (case find_library (files t) dep search_paths of
                               None \<Rightarrow> Some (Inr t)
                             | Some found \<Rightarrow>
                                 if startswith (path_str found) (path_str homebrew_prefix)
                                 then copy_shared_libs_recursive n H found output_dir
                                        homebrew_prefix search_paths t
                                 else Some (Inr t))
                       else Some (Inr t))
                    deps s6)"

section \<open>copy\_libvips\_macos.py\<close>

primrec copy_dylibs_recursive ::
  "nat \<Rightarrow> 'c host \<Rightarrow> path \<Rightarrow> path \<Rightarrow> path \<Rightarrow> 'c state \<Rightarrow> (exn + 'c state) option" where
  "copy_dylibs_recursive 0 H lib_path output_dir homebrew_prefix s = None"
| "copy_dylibs_recursive (Suc n) H lib_path output_dir homebrew_prefix s =
     (let lib_name = path_name lib_path in
      if lib_name \<in> copied s then Some (Inr s)
      else if startswith (path_str lib_path) ''/usr/lib'' \<or>
              startswith (path_str lib_path) ''/System''
      then Some (Inr (logger DEBUG (''Skipping system library: '' @ path_str lib_path) s))
      else if \<not> exists (files s) lib_path
      then Some (Inr (logger WARNING (''Library not found: '' @ path_str lib_path) s))
      else
        let s1 = logger INFO (''Copying: '' @ path_str lib_path) s;
            real_path = realpath H lib_path;
            dest_path = joinpath output_dir lib_name
        in case copy2 real_path dest_path s1 of
             Inl e \<Rightarrow> Some (Inl e)
           | Inr s2 \<Rightarrow>
               let s3 = s2\<lparr>copied := insert lib_name (copied s2)\<rparr>;
                   s4 = (if is_symlink H lib_path \<and> path_name lib_path \<noteq> path_name real_path
                         then logger INFO (''  (resolved from symlink: '' @ path_name lib_path
                                @ '' -> '' @ path_name real_path @ '')'') s3
                         else s3);
                   s5 = logger INFO (''  -> '' @ path_str dest_path) s4;
                   s6 = s5\<lparr>trace := trace s5 @ [ListDeps dest_path]\<rparr>;
                   deps = list_deps H (files s6) dest_path
               in for_each
                    (\<lambda>dep t.
                       let dep_path = Path dep in
                       if startswith (path_str dep_path) (path_str homebrew_prefix)
                       then copy_dylibs_recursive n H dep_path output_dir homebrew_prefix t
                       else Some (Inr t))
                    deps s6)"

section \<open>The path rewriters and the main functions\<close>

text \<open>
  The patching tools act on the content of one file: \<open>None\<close> is a failed invocation,
  which leaves the file as it was. \<open>which\<close> gives the return code of \<open>which prog\<close>.
\<close>

record 'c tools =
  which :: "string \<Rightarrow> int"
  patchelf_set_rpath :: "string \<Rightarrow> 'c \<Rightarrow> 'c option"
  install_name_id :: "string \<Rightarrow> 'c \<Rightarrow> 'c option"
  install_name_change :: "string \<Rightarrow> string \<Rightarrow> 'c \<Rightarrow> 'c option"

definition run_command :: "string list \<Rightarrow> 'c state \<Rightarrow> 'c state" where
  \<comment> \<open>the call, as an event of the trace\<close>
  "run_command cmd s = s\<lparr>trace := trace s @ [Run cmd]\<rparr>"

definition patch_file :: "('c \<Rightarrow> 'c option) \<Rightarrow> path \<Rightarrow> 'c state \<Rightarrow> 'c state" where
  \<comment> \<open>what a patching tool run on the file at \<open>p\<close> leaves behind\<close>
  "patch_file tool p s =
     (case map_of (files s) p of
        None \<Rightarrow> s
      | Some c \<Rightarrow>
          (case tool c of
             None \<Rightarrow> s
           | Some c' \<Rightarrow> s\<lparr>files := AList.update p c' (files s)\<rparr>))"

subsection \<open>copy\_libvips\_linux.py: fix\_library\_rpath\<close>


subsection \<open>copy\_libvips\_macos.py: fix\_library\_paths\<close>

definition at_rpath :: "string \<Rightarrow> string" where
  \<comment> \<open>the format string \<open>@rpath/{name}\<close>\<close>
  "at_rpath name = ''@rpath/'' @ name"

definition fix_dependency :: "'c tools \<Rightarrow> path \<Rightarrow> path \<Rightarrow> string \<Rightarrow> 'c state \<Rightarrow> 'c state" where
  \<comment> \<open>the body of the inner loop, for one dependency of one library\<close>
  "fix_dependency T output_dir dylib dep t =
     (let dep_path = Path dep;
          dep_name = path_name dep_path
      in if exists (files t) (joinpath output_dir dep_name)
         then let new_dep = at_rpath dep_name
              in logger INFO (''  Changed: '' @ dep @ '' -> '' @ new_dep)
                   (patch_file (install_name_change T dep new_dep) dylib
                      (run_command [''install_name_tool'', ''-change'', dep, new_dep,
                                    path_str dylib] t))
         else t)"

definition fix_dylib :: "'c host \<Rightarrow> 'c tools \<Rightarrow> path \<Rightarrow> path \<Rightarrow> 'c state \<Rightarrow> 'c state" where
  \<comment> \<open>the body of the outer loop, for one library\<close>
  "fix_dylib H T output_dir dylib t =
     (let t1 = logger INFO (''Fixing: '' @ path_name dylib) t;
          new_id = at_rpath (path_name dylib);
          t2 = patch_file (install_name_id T new_id) dylib
                 (run_command [''install_name_tool'', ''-id'', new_id, path_str dylib] t1);
          t3 = t2\<lparr>trace := trace t2 @ [ListDeps dylib]\<rparr>;
          deps = list_deps H (files t3) dylib
      in fold (fix_dependency T output_dir dylib) deps t3)"

definition fix_library_paths :: "'c host \<Rightarrow> 'c tools \<Rightarrow> path \<Rightarrow> 'c state \<Rightarrow> 'c state" where
  "fix_library_paths H T output_dir s =
     (let s1 = logger INFO ''Fixing library paths for redistribution...'' s
      in fold (fix_dylib H T output_dir) (glob (files s1) output_dir ''*.dylib'') s1)"

subsection \<open>The command line\<close>













record macos_args = common_args +
  args_fix_paths :: bool





subsection \<open>main of the Linux and of the macOS script\<close>

text \<open>
  What Homebrew and the platform answer: return code and standard output of a \<open>brew\<close>
  command, the version \<open>get_package_version\<close> extracts, and \<open>platform.machine()\<close>.
\<close>

record brew =
  brew_run :: "string list \<Rightarrow> int \<times> string"
  package_version :: "string \<Rightarrow> string"
  platform_machine :: string


definition first_glob :: "'c filesystem \<Rightarrow> path \<Rightarrow> string list \<Rightarrow> path option" where
  \<comment> \<open>\<open>for pattern in patterns: libs = list(d.glob(pattern)); if libs: main_lib = libs[0]; break\<close>\<close>
  "first_glob fs d patterns =
     (case concat (map (\<lambda>pattern. take 1 (glob fs d pattern)) patterns) of
        [] \<Rightarrow> None
      | lib # _ \<Rightarrow> Some lib)"


definition main_macos ::
  "nat \<Rightarrow> brew \<Rightarrow> 'c host \<Rightarrow> 'c tools \<Rightarrow> macos_args \<Rightarrow> 'c state
     \<Rightarrow> ('c state \<times> outcome) option" where
  "main_macos n B H T args s0 =
     (let s1 = logger INFO (replicate 60 CHR ''='')
                 (logger INFO ''libvips macOS Library Copier''
                    (logger INFO (replicate 60 CHR ''='') s0));
          s2 = run_command [''brew'', ''--prefix''] s1
      in case brew_run B [''brew'', ''--prefix''] of (rc, out) \<Rightarrow>
         if rc \<noteq> 0 then Some (s2, Uncaught RuntimeError)
         else
           let homebrew_prefix = Path (strip out);
               s3 = logger INFO (''Homebrew prefix: '' @ path_str homebrew_prefix) s2;
               s4 = run_command [''brew'', ''--prefix'', ''vips''] s3
           in case brew_run B [''brew'', ''--prefix'', ''vips''] of (rc, out) \<Rightarrow>
              if rc \<noteq> 0 then Some (s4, Uncaught RuntimeError)
              else
                let vips_prefix = Path (strip out);
                    s5 = run_command [''brew'', ''info'', ''--json=v2'', ''vips''] s4;
                    vips_version = package_version B ''vips'';
                    s6 = logger INFO (''libvips version: '' @ vips_version)
                           (logger INFO (''libvips prefix: '' @ path_str vips_prefix) s5);
                    lib_output_dir = joinpath (args_output args) ''lib'';
                    s8 = logger INFO (''Output directory: '' @ path_str lib_output_dir) s6;
                    vips_lib_dir = joinpath vips_prefix ''lib''
                in case first_glob (files s8) vips_lib_dir [''libvips.dylib'', ''libvips.*.dylib''] of
                     None \<Rightarrow>
                       Some (logger ERROR (''Could not find libvips.dylib in ''
                                @ path_str vips_lib_dir) s8,
                             Exit 1)
                   | Some main_lib \<Rightarrow>
                       let s9 = logger INFO (replicate 40 CHR ''-'')
                                  (logger INFO ''Copying dynamic libraries...''
                                     (logger INFO ''''
                                        (logger INFO (''Main library: '' @ path_str main_lib) s8)));
                           s10 = s9\<lparr>copied := {}\<rparr>
                       in case copy_dylibs_recursive n H main_lib lib_output_dir
                                 homebrew_prefix s10 of
                            None \<Rightarrow> None
                          | Some (Inl e) \<Rightarrow> Some (s10, Uncaught e)
                          | Some (Inr s11) \<Rightarrow>
                              (case for_each
                                      (\<lambda>lib t.
                                         if path_name lib \<notin> copied t
                                         then copy_dylibs_recursive n H lib lib_output_dir
                                                homebrew_prefix t
                                         else Some (Inr t))
                                      (glob (files s11) vips_lib_dir ''libvips*.dylib'') s11 of
                                 None \<Rightarrow> None
                               | Some (Inl e) \<Rightarrow> Some (s11, Uncaught e)
                               | Some (Inr s12) \<Rightarrow>
                                   let s13 = logger INFO (''Total libraries copied: ''
                                                 @ str_nat (card (copied s12)))
                                               (logger INFO (replicate 40 CHR ''-'') s12);
                                       s14 = (if args_fix_paths args
                                              then fix_library_paths H T lib_output_dir
                                                     (logger INFO '''' s13)
                                              else s13)
                                   in Some (s14, Exit 0)))"

section \<open>The walk both closure builders share\<close>

text \<open>
  The two functions differ in the test that skips a system library and in the choice of
  the path to descend into for a dependency. \<open>walk\<close> takes both as arguments; each
  builder is shown below to be an instance of it, and the properties of the closure
  are proved once.
\<close>

definition linux_skip :: "path \<Rightarrow> bool" where
  "linux_skip lib_path =
     (list_ex (startswith (path_str lib_path)) system_prefixes \<and>
      \<not> list_ex (\<lambda>essential. contains essential (path_name lib_path)) essential_libs)"

definition macos_skip :: "path \<Rightarrow> bool" where
  "macos_skip lib_path =
     (startswith (path_str lib_path) ''/usr/lib'' \<or> startswith (path_str lib_path) ''/System'')"

definition linux_pick :: "path \<Rightarrow> path list \<Rightarrow> 'c filesystem \<Rightarrow> string \<Rightarrow> path option" where
  "linux_pick homebrew_prefix search_paths fs dep =
     (let dep_path = Path dep in
      if startswith (path_str dep_path) (path_str homebrew_prefix) then Some dep_path
      else if \<not> is_absolute dep_path
      then (case find_library fs dep search_paths of
              None \<Rightarrow> None
            | Some found \<Rightarrow>
                if startswith (path_str found) (path_str homebrew_prefix) then Some found
                else None)
      else None)"

definition macos_pick :: "path \<Rightarrow> 'c filesystem \<Rightarrow> string \<Rightarrow> path option" where
  "macos_pick homebrew_prefix fs dep =
     (let dep_path = Path dep in
      if startswith (path_str dep_path) (path_str homebrew_prefix) then Some dep_path
      else None)"

definition copy_step :: "'c host \<Rightarrow> path \<Rightarrow> path \<Rightarrow> 'c state \<Rightarrow> exn + 'c state" where
  \<comment> \<open>from the line \<open>Copying:\<close> to the call of the lister, for a library that is copied\<close>
  "copy_step H output_dir lib_path s =
     (let lib_name = path_name lib_path;
          s1 = logger INFO (''Copying: '' @ path_str lib_path) s;
          real_path = realpath H lib_path;
          dest_path = joinpath output_dir lib_name
      in case copy2 real_path dest_path s1 of
           Inl e \<Rightarrow> Inl e
         | Inr s2 \<Rightarrow>
             let s3 = s2\<lparr>copied := insert lib_name (copied s2)\<rparr>;
                 s4 = (if is_symlink H lib_path \<and> path_name lib_path \<noteq> path_name real_path
                       then logger INFO (''  (resolved from symlink: '' @ path_name lib_path
                              @ '' -> '' @ path_name real_path @ '')'') s3
                       else s3);
                 s5 = logger INFO (''  -> '' @ path_str dest_path) s4
             in Inr (s5\<lparr>trace := trace s5 @ [ListDeps dest_path]\<rparr>))"

primrec walk ::
  "nat \<Rightarrow> (path \<Rightarrow> bool) \<Rightarrow> ('c filesystem \<Rightarrow> string \<Rightarrow> path option) \<Rightarrow> 'c host
     \<Rightarrow> path \<Rightarrow> path \<Rightarrow> 'c state \<Rightarrow> (exn + 'c state) option" where
  "walk 0 skip pick H output_dir lib_path s = None"
| "walk (Suc n) skip pick H output_dir lib_path s =
     (if path_name lib_path \<in> copied s then Some (Inr s)
      else if skip lib_path
      then Some (Inr (logger DEBUG (''Skipping system library: '' @ path_str lib_path) s))
      else if \<not> exists (files s) lib_path
      then Some (Inr (logger WARNING (''Library not found: '' @ path_str lib_path) s))
      else (case copy_step H output_dir lib_path s of
              Inl e \<Rightarrow> Some (Inl e)
            | Inr s6 \<Rightarrow>
                for_each
                  (\<lambda>dep t. case pick (files t) dep of
                              None \<Rightarrow> Some (Inr t)
                            | Some q \<Rightarrow> walk n skip pick H output_dir q t)
                  (list_deps H (files s6) (joinpath output_dir (path_name lib_path))) s6))"

section \<open>Reading the trace\<close>

fun dests :: "event list \<Rightarrow> path list" where
  \<comment> \<open>the destinations of the copies, in order\<close>
  "dests [] = []"
| "dests (Copy2 src dst # es) = dst # dests es"
| "dests (_ # es) = dests es"

fun listed :: "event list \<Rightarrow> path list" where
  \<comment> \<open>the paths handed to the dependency lister, in order\<close>
  "listed [] = []"
| "listed (ListDeps p # es) = p # listed es"
| "listed (_ # es) = listed es"

definition copies_once :: "path \<Rightarrow> 'c state \<Rightarrow> 'c state \<Rightarrow> bool" where
  \<comment> \<open>between \<open>s\<close> and \<open>s'\<close> a duplicate-free list of new names was added to \<open>copied\<close>,
      and the copies made are exactly one per name, to that name in the output directory\<close>
  "copies_once output_dir s s' =
     (\<exists>names new. distinct names \<and> set names \<inter> copied s = {} \<and>
        copied s' = copied s \<union> set names \<and>
        trace s' = trace s @ new \<and>
        dests new = map (joinpath output_dir) names)"


fun srcs :: "event list \<Rightarrow> path list" where
  \<comment> \<open>the sources of the copies, in order\<close>
  "srcs [] = []"
| "srcs (Copy2 src dst # es) = src # srcs es"
| "srcs (_ # es) = srcs es"

definition lists_the_copies :: "path \<Rightarrow> 'c state \<Rightarrow> 'c state \<Rightarrow> bool" where
  \<comment> \<open>the paths handed to the lister between \<open>s\<close> and \<open>s'\<close> are, in order, the
      destinations of the copies made, all in the output directory, none a copy's source\<close>
  "lists_the_copies output_dir s s' =
     (\<exists>names new. trace s' = trace s @ new \<and>
        listed new = dests new \<and>
        dests new = map (joinpath output_dir) names \<and>
        list_all2 (\<lambda>src p. src \<noteq> p) (srcs new) (listed new))"




definition rewrite_ref :: "'c filesystem \<Rightarrow> path \<Rightarrow> string \<Rightarrow> string" where
  \<comment> \<open>a dependency reference after the macOS rewriter: origin-relative when a file of its
      base name is in the output directory, untouched otherwise\<close>
  "rewrite_ref fs output_dir r =
     (if exists fs (joinpath output_dir (path_name (Path r)))
      then at_rpath (path_name (Path r)) else r)"

definition file_after :: "path \<Rightarrow> ('c state \<times> outcome) option \<Rightarrow> 'c option" where
  \<comment> \<open>the file at a path when \<open>main\<close> has ended\<close>
  "file_after p r = (case r of None \<Rightarrow> None | Some (s, oc) \<Rightarrow> map_of (files s) p)"

section \<open>The output directory and the rest of the file system\<close>








section \<open>Example hosts\<close>

text \<open>
  A host on which the content of a library is the list of the dependencies the lister
  reports for it, without symbolic links; and a start state for a run on a file system.
\<close>

definition content_host :: "string list host" where
  "content_host =
     \<lparr>realpath = (\<lambda>p. p), is_symlink = (\<lambda>p. False),
      list_deps = (\<lambda>fs p. case map_of fs p of None \<Rightarrow> [] | Some ds \<Rightarrow> ds)\<rparr>"

definition start :: "'c filesystem \<Rightarrow> 'c state" where
  "start fs = \<lparr>copied = {}, files = fs, trace = []\<rparr>"

definition diamond_fs :: "string list filesystem" where
  \<comment> \<open>\<open>libvips\<close> needs \<open>liba\<close> and \<open>libb\<close>, which both need \<open>libg\<close>\<close>
  "diamond_fs =
     [(Path ''/hb/lib/libvips.so'',
         [''/hb/lib/liba.so'', ''/hb/lib/libb.so'', ''/usr/lib/libc.so'']),
      (Path ''/hb/lib/liba.so'', [''/hb/lib/libg.so'']),
      (Path ''/hb/lib/libb.so'', [''/hb/lib/libg.so'']),
      (Path ''/hb/lib/libg.so'', [])]"


definition runtime_fs :: "string list filesystem" where
  \<comment> \<open>a C++ runtime library below a system root, once per platform\<close>
  "runtime_fs =
     [(Path ''/usr/lib/libstdc++.so.6'', []),
      (Path ''/usr/lib/libstdc++.6.dylib'', []),
      (Path ''/usr/lib/libc.so.6'', [])]"

text \<open>
  An ELF library as far as the Linux script goes: its runtime search path and the names
  it needs. \<open>patchelf --set-rpath\<close> sets the former; the \<open>which\<close> of these tools answers with
  a given return code.
\<close>

record elf =
  rpath :: string
  needed :: "string list"




text \<open>
  A Mach-O library as far as the macOS script goes: its install name and the install
  names of the libraries it loads. \<open>otool -L\<close> lists the former, then the latter;
  \<open>install_name_tool -id\<close> sets the former, \<open>-change old new\<close> replaces \<open>old\<close> among the
  latter.
\<close>

record macho =
  install_name :: string
  load_commands :: "string list"

definition macho_host :: "macho host" where
  "macho_host =
     \<lparr>realpath = (\<lambda>p. p), is_symlink = (\<lambda>p. False),
      list_deps = (\<lambda>fs p. case map_of fs p of
                              None \<Rightarrow> []
                            | Some c \<Rightarrow> install_name c # load_commands c)\<rparr>"

definition macho_tools :: "macho tools" where
  "macho_tools =
     \<lparr>which = (\<lambda>prog. 1),
      patchelf_set_rpath = (\<lambda>r c. None),
      install_name_id = (\<lambda>n c. Some (c\<lparr>install_name := n\<rparr>)),
      install_name_change =
        (\<lambda>old new c.
           Some (c\<lparr>load_commands := map (\<lambda>r. if r = old then new else r) (load_commands c)\<rparr>))\<rparr>"

definition linuxbrew :: brew where
  "linuxbrew =
     \<lparr>brew_run = (\<lambda>cmd. if cmd = [''brew'', ''--prefix''] then (0, ''/hb'' @ [CHR 0x0A])
                          else if cmd = [''brew'', ''--prefix'', ''vips'']
                          then (0, ''/hb/opt/vips'' @ [CHR 0x0A])
                          else (1, '''')),
      package_version = (\<lambda>pkg. ''8.17.0''),
      platform_machine = ''x86_64''\<rparr>"




definition framework_fs :: "macho filesystem" where
  \<comment> \<open>\<open>libvips\<close> loads a framework binary, whose name has no \<open>.dylib\<close>, and \<open>libz\<close>\<close>
  "framework_fs =
     [(Path ''/hb/opt/vips/lib/libvips.42.dylib'',
         \<lparr>install_name = ''/hb/opt/vips/lib/libvips.42.dylib'',
          load_commands = [''/hb/Frameworks/Python'', ''/hb/lib/libz.dylib'']\<rparr>),
      (Path ''/hb/Frameworks/Python'',
         \<lparr>install_name = ''/hb/Frameworks/Python'', load_commands = [''/hb/lib/libz.dylib'']\<rparr>),
      (Path ''/hb/lib/libz.dylib'',
         \<lparr>install_name = ''/hb/lib/libz.dylib'', load_commands = []\<rparr>)]"

definition macos_request :: macos_args where
  "macos_request =
     \<lparr>args_output = Path ''out'', args_include_headers = False, args_verbose = False,
      args_fix_paths = True\<rparr>"

definition macho_bundle :: "macho filesystem" where
  "macho_bundle =
     [(Path ''/out/lib/libvips.42.dylib'',
         \<lparr>install_name = ''/hb/opt/vips/lib/libvips.42.dylib'',
          load_commands = [''/hb/lib/libglib-2.0.0.dylib'', ''/usr/lib/libSystem.B.dylib'']\<rparr>),
      (Path ''/out/lib/libglib-2.0.0.dylib'',
         \<lparr>install_name = ''/hb/lib/libglib-2.0.0.dylib'', load_commands = []\<rparr>)]"

section \<open>Properties\<close>

subsection \<open>Strings\<close>

lemma endswith_suffix: "endswith s suf = suffix suf s"
  by (simp add: endswith_def suffix_to_prefix)

lemma contains_sublist: "contains sub s = sublist sub s"
  by (induction s) (auto simp: sublist_Cons_right)

subsection \<open>The version component of an asset name\<close>

lemma first_version_empty:
  "\<forall>p \<in> set ps. \<not> starts_with_digit p \<Longrightarrow> first_version (ps @ [] # qs) = Inl IndexError"
  by (induction ps) (auto simp: starts_with_digit_def split: list.splits)

lemma first_version_find:
  "[] \<notin> set ps \<Longrightarrow>
   first_version ps = Inr (case find starts_with_digit ps of None \<Rightarrow> ''unknown'' | Some p \<Rightarrow> p)"
  by (induction ps) (auto simp: starts_with_digit_def split: list.splits)

text \<open>
  C10, as stated, reads the components off the name with its \<open>.zip\<close> suffix removed. The
  code removes every occurrence of \<open>.zip\<close>: on \<open>.zip-1.0.zip\<close> the suffix-stripped name
  has the two non-empty components \<open>.zip\<close> and \<open>1.0\<close>, yet the function raises
  \<open>IndexError\<close> instead of returning \<open>1.0\<close>.
\<close>

theorem get_version_suffix_counterexample:
  "split_on CHR ''-'' (strip_zip_suffix ''.zip-1.0.zip'') = [''.zip'', ''1.0'']
   \<and> get_version_from_filename ''.zip-1.0.zip'' = Inl IndexError"
  by (simp add: strip_zip_suffix_def endswith_def get_version_from_filename_def isdigit_def)

text \<open>
  C10, amended: \<open>get_version_from_filename\<close> is not total. Take the name with every
  occurrence of \<open>.zip\<close> removed and split it on \<open>-\<close>. If an empty component comes before
  any component that starts with a digit, the function raises \<open>IndexError\<close>. If no
  component is empty, it returns the first component whose first character is a digit,
  and \<open>unknown\<close> when there is none.
\<close>

theorem get_version_from_filename_spec:
  "(split_on CHR ''-'' (replace_str ''.zip'' '''' filename) = ps @ [] # qs \<and>
      (\<forall>p \<in> set ps. \<not> starts_with_digit p)
        \<longrightarrow> get_version_from_filename filename = Inl IndexError) \<and>
   ([] \<notin> set (split_on CHR ''-'' (replace_str ''.zip'' '''' filename))
        \<longrightarrow> get_version_from_filename filename =
            Inr (case find starts_with_digit
                        (split_on CHR ''-'' (replace_str ''.zip'' '''' filename)) of
                   None \<Rightarrow> ''unknown'' | Some p \<Rightarrow> p))"
  by (simp add: get_version_from_filename_def first_version_empty first_version_find)

theorem get_version_from_filename_witness:
  "get_version_from_filename ''vips--8.1.zip'' = Inl IndexError \<and>
   get_version_from_filename ''vips-dev-w64-web-8.17.0-static.zip'' = Inr ''8.17.0'' \<and>
   get_version_from_filename ''vips-dev.zip'' = Inr ''unknown''"
  using get_version_from_filename_spec [of "''vips--8.1.zip''" "[''vips'']" "[''8.1'']"]
    get_version_from_filename_spec [of "''vips-dev-w64-web-8.17.0-static.zip''"]
    get_version_from_filename_spec [of "''vips-dev.zip''"]
  by (simp add: starts_with_digit_def isdigit_def)

subsection \<open>Both closure builders are instances of the shared walk\<close>

lemma for_each_cong:
  "(\<And>x s. x \<in> set xs \<Longrightarrow> f x s = g x s) \<Longrightarrow> for_each f xs s = for_each g xs s"
  by (induction xs arbitrary: s) (auto split: option.splits sum.splits)

lemma copy_shared_libs_recursive_walk:
  "copy_shared_libs_recursive n H lib_path output_dir homebrew_prefix search_paths s =
   walk n linux_skip (linux_pick homebrew_prefix search_paths) H output_dir lib_path s"
proof (induction n arbitrary: lib_path s)
  case 0
  show ?case by simp
next
  case (Suc n)
  show ?case
    by (auto simp: Let_def linux_skip_def linux_pick_def copy_step_def Suc
          split: sum.splits option.splits intro!: for_each_cong)
qed

lemma copy_dylibs_recursive_walk:
  "copy_dylibs_recursive n H lib_path output_dir homebrew_prefix s =
   walk n macos_skip (macos_pick homebrew_prefix) H output_dir lib_path s"
proof (induction n arbitrary: lib_path s)
  case 0
  show ?case by simp
next
  case (Suc n)
  show ?case
    by (auto simp: Let_def macos_skip_def macos_pick_def copy_step_def Suc
          split: sum.splits option.splits intro!: for_each_cong)
qed

subsection \<open>A rule for relations between the state before and after a walk\<close>

text \<open>
  A reflexive and transitive relation that every log line and every single copy
  respects holds between the state a walk starts in and the state it returns.
\<close>

lemma for_each_rel:
  assumes refl: "\<And>s. R s s"
    and trans: "\<And>s t u. R s t \<Longrightarrow> R t u \<Longrightarrow> R s u"
    and body: "\<And>x s s'. x \<in> set xs \<Longrightarrow> body x s = Some (Inr s') \<Longrightarrow> R s s'"
  shows "for_each body xs s = Some (Inr s') \<Longrightarrow> R s s'"
  using body
proof (induction xs arbitrary: s)
  case Nil
  then show ?case using refl by simp
next
  case (Cons x xs)
  from Cons.prems(1) obtain t
    where t: "body x s = Some (Inr t)" "for_each body xs t = Some (Inr s')"
    by (auto split: option.splits sum.splits)
  have "R s t" by (rule Cons.prems(2)[OF _ t(1)]) simp
  moreover have "R t s'"
  proof (rule Cons.IH[OF t(2)])
    fix y u u' assume "y \<in> set xs" "body y u = Some (Inr u')"
    then show "R u u'" by (intro Cons.prems(2)[of y u u']) simp_all
  qed
  ultimately show ?case using trans by blast
qed

lemma walk_rel:
  assumes refl: "\<And>s. R s s"
    and trans: "\<And>s t u. R s t \<Longrightarrow> R t u \<Longrightarrow> R s u"
    and log: "\<And>lvl msg s. R s (logger lvl msg s)"
    and copy: "\<And>p s s6. path_name p \<notin> copied s \<Longrightarrow> \<not> skip p \<Longrightarrow> exists (files s) p \<Longrightarrow>
                 copy_step H out p s = Inr s6 \<Longrightarrow> R s s6"
  shows "walk n skip pick H out p s = Some (Inr s') \<Longrightarrow> R s s'"
proof (induction n arbitrary: p s s')
  case 0
  then show ?case by simp
next
  case (Suc n)
  show ?case
  proof (cases "path_name p \<in> copied s \<or> skip p \<or> \<not> exists (files s) p")
    case True
    then show ?thesis using Suc.prems refl log by (auto split: if_splits)
  next
    case False
    then obtain s6 where s6: "copy_step H out p s = Inr s6"
      and loop: "for_each (\<lambda>dep t. case pick (files t) dep of None \<Rightarrow> Some (Inr t)
                    | Some q \<Rightarrow> walk n skip pick H out q t)
                  (list_deps H (files s6) (joinpath out (path_name p))) s6 = Some (Inr s')"
      using Suc.prems by (auto split: sum.splits)
    have "R s s6" using copy False s6 by blast
    moreover have "R s6 s'"
      by (rule for_each_rel[where R = R, OF refl trans _ loop])
         (auto split: option.splits intro: refl Suc.IH)
    ultimately show ?thesis using trans by blast
  qed
qed

subsection \<open>What one copy does\<close>

lemma dests_append: "dests (xs @ ys) = dests xs @ dests ys"
  by (induction xs rule: dests.induct) auto

lemma listed_append: "listed (xs @ ys) = listed xs @ listed ys"
  by (induction xs rule: listed.induct) auto

lemma copy_step_Inr:
  assumes "copy_step H out p s = Inr s6"
  shows "copied s6 = insert (path_name p) (copied s)"
    and "\<exists>c. map_of (files s) (realpath H p) = Some c \<and>
             files s6 = AList.update (joinpath out (path_name p)) c (files s)"
    and "realpath H p \<noteq> joinpath out (path_name p)"
    and "\<exists>logs. trace s6 = trace s @ [Log INFO (''Copying: '' @ path_str p),
              Copy2 (realpath H p) (joinpath out (path_name p))] @ logs @
              [ListDeps (joinpath out (path_name p))] \<and> dests logs = [] \<and> listed logs = []"
  using assms
  by (auto simp: copy_step_def copy2_def logger_def Let_def split: option.splits if_splits)

subsection \<open>Each name is copied once\<close>

lemma copies_once_refl: "copies_once out s s"
  unfolding copies_once_def by (rule exI[of _ "[]"], rule exI[of _ "[]"]) simp

lemma copies_once_trans:
  assumes "copies_once out s t" "copies_once out t u"
  shows "copies_once out s u"
proof -
  from assms(1) obtain ns1 new1 where 1: "distinct ns1" "set ns1 \<inter> copied s = {}"
    "copied t = copied s \<union> set ns1" "trace t = trace s @ new1"
    "dests new1 = map (joinpath out) ns1"
    unfolding copies_once_def by blast
  from assms(2) obtain ns2 new2 where 2: "distinct ns2" "set ns2 \<inter> copied t = {}"
    "copied u = copied t \<union> set ns2" "trace u = trace t @ new2"
    "dests new2 = map (joinpath out) ns2"
    unfolding copies_once_def by blast
  have "distinct (ns1 @ ns2)" using 1 2 by auto
  moreover have "set (ns1 @ ns2) \<inter> copied s = {}" using 1 2 by auto
  moreover have "copied u = copied s \<union> set (ns1 @ ns2)" using 1 2 by auto
  moreover have "trace u = trace s @ (new1 @ new2)" using 1 2 by simp
  moreover have "dests (new1 @ new2) = map (joinpath out) (ns1 @ ns2)"
    using 1 2 by (simp add: dests_append)
  ultimately show ?thesis unfolding copies_once_def by blast
qed

lemma copies_once_logger: "copies_once out s (logger lvl msg s)"
  unfolding copies_once_def
  by (rule exI[of _ "[]"], rule exI[of _ "[Log lvl msg]"]) (simp add: logger_def)

lemma copies_once_copy_step:
  assumes "path_name p \<notin> copied s" "copy_step H out p s = Inr s6"
  shows "copies_once out s s6"
proof -
  from copy_step_Inr(4)[OF assms(2)] obtain logs where
    t: "trace s6 = trace s @ [Log INFO (''Copying: '' @ path_str p),
              Copy2 (realpath H p) (joinpath out (path_name p))] @ logs @
              [ListDeps (joinpath out (path_name p))]" "dests logs = []"
    by blast
  show ?thesis unfolding copies_once_def
    apply (rule exI[of _ "[path_name p]"])
    apply (rule exI[of _ "[Log INFO (''Copying: '' @ path_str p),
              Copy2 (realpath H p) (joinpath out (path_name p))] @ logs @
              [ListDeps (joinpath out (path_name p))]"])
    using assms(1) copy_step_Inr(1)[OF assms(2)] t
    by (simp add: dests_append)
qed

lemma walk_copies_once:
  "walk n skip pick H out p s = Some (Inr s') \<Longrightarrow> copies_once out s s'"
  by (rule walk_rel[where R = "copies_once out"])
     (auto intro: copies_once_refl copies_once_trans copies_once_logger copies_once_copy_step)

text \<open>Unfolding the examples: the definitions a concrete run evaluates.\<close>

lemmas run_simps =
  content_host_def start_def Path_def path_str_def path_name_def joinpath_def
  is_absolute_def startswith_def exists_def logger_def copy2_def Let_def copy_step_def
  macos_skip_def macos_pick_def linux_skip_def linux_pick_def system_prefixes_def
  essential_libs_def numeral_eq_Suc

text \<open>
  C1. A visit to a path whose file name is already in \<open>copied\<close> returns the state
  unchanged: nothing is copied, logged or listed. Between the start and the return of
  either closure builder the names added to \<open>copied\<close> form a duplicate-free list
  disjoint from the names already there, and the copies made are one per name of that
  list, in order, each to that name in the output directory. In the diamond, the shared
  \<open>libg\<close> is copied once.
\<close>

theorem closure_copies_each_name_once:
  "(path_name lib_path \<in> copied s \<longrightarrow>
      copy_shared_libs_recursive (Suc n) H lib_path output_dir homebrew_prefix search_paths s
        = Some (Inr s) \<and>
      copy_dylibs_recursive (Suc n) H lib_path output_dir homebrew_prefix s = Some (Inr s)) \<and>
   (copy_shared_libs_recursive n H lib_path output_dir homebrew_prefix search_paths s
      = Some (Inr s') \<longrightarrow> copies_once output_dir s s') \<and>
   (copy_dylibs_recursive n H lib_path output_dir homebrew_prefix s = Some (Inr s')
      \<longrightarrow> copies_once output_dir s s')"
  by (simp add: copy_shared_libs_recursive_walk copy_dylibs_recursive_walk walk_copies_once)

lemma diamond_linux:
  "\<exists>s'. copy_shared_libs_recursive 4 content_host (Path ''/hb/lib/libvips.so'') (Path ''/out'')
           (Path ''/hb'') [Path ''/hb/lib''] (start diamond_fs) = Some (Inr s') \<and>
        dests (trace s') = [Path ''/out/libvips.so'', Path ''/out/liba.so'',
                            Path ''/out/libg.so'', Path ''/out/libb.so''] \<and>
        path_name (Path ''/hb/lib/libg.so'') \<in> copied s'"
  by (simp add: copy_shared_libs_recursive_walk diamond_fs_def run_simps)

lemma diamond_macos:
  "\<exists>s'. copy_dylibs_recursive 4 content_host (Path ''/hb/lib/libvips.so'') (Path ''/out'')
           (Path ''/hb'') (start diamond_fs) = Some (Inr s') \<and>
        dests (trace s') = [Path ''/out/libvips.so'', Path ''/out/liba.so'',
                            Path ''/out/libg.so'', Path ''/out/libb.so''] \<and>
        path_name (Path ''/hb/lib/libg.so'') \<in> copied s'"
  by (simp add: copy_dylibs_recursive_walk diamond_fs_def run_simps)

theorem closure_copies_each_name_once_witness:
  "(\<exists>s'. copy_shared_libs_recursive 4 content_host (Path ''/hb/lib/libvips.so'') (Path ''/out'')
           (Path ''/hb'') [Path ''/hb/lib''] (start diamond_fs) = Some (Inr s') \<and>
         dests (trace s') = [Path ''/out/libvips.so'', Path ''/out/liba.so'',
                             Path ''/out/libg.so'', Path ''/out/libb.so''] \<and>
         copies_once (Path ''/out'') (start diamond_fs) s' \<and>
         copy_shared_libs_recursive (Suc 0) content_host (Path ''/hb/lib/libg.so'') (Path ''/out'')
           (Path ''/hb'') [Path ''/hb/lib''] s' = Some (Inr s')) \<and>
   (\<exists>s'. copy_dylibs_recursive 4 content_host (Path ''/hb/lib/libvips.so'') (Path ''/out'')
           (Path ''/hb'') (start diamond_fs) = Some (Inr s') \<and>
         dests (trace s') = [Path ''/out/libvips.so'', Path ''/out/liba.so'',
                             Path ''/out/libg.so'', Path ''/out/libb.so''] \<and>
         copies_once (Path ''/out'') (start diamond_fs) s' \<and>
         copy_dylibs_recursive (Suc 0) content_host (Path ''/hb/lib/libg.so'') (Path ''/out'')
           (Path ''/hb'') s' = Some (Inr s'))"
proof -
  obtain s1 where s1:
    "copy_shared_libs_recursive 4 content_host (Path ''/hb/lib/libvips.so'') (Path ''/out'')
       (Path ''/hb'') [Path ''/hb/lib''] (start diamond_fs) = Some (Inr s1)"
    "dests (trace s1) = [Path ''/out/libvips.so'', Path ''/out/liba.so'',
                         Path ''/out/libg.so'', Path ''/out/libb.so'']"
    "path_name (Path ''/hb/lib/libg.so'') \<in> copied s1"
    using diamond_linux by blast
  obtain s2 where s2:
    "copy_dylibs_recursive 4 content_host (Path ''/hb/lib/libvips.so'') (Path ''/out'')
       (Path ''/hb'') (start diamond_fs) = Some (Inr s2)"
    "dests (trace s2) = [Path ''/out/libvips.so'', Path ''/out/liba.so'',
                         Path ''/out/libg.so'', Path ''/out/libb.so'']"
    "path_name (Path ''/hb/lib/libg.so'') \<in> copied s2"
    using diamond_macos by blast
  have c1: "copies_once (Path ''/out'') (start diamond_fs) s1"
    by (rule closure_copies_each_name_once
          [THEN conjunct2, THEN conjunct1, rule_format, OF s1(1)])
  have c2: "copies_once (Path ''/out'') (start diamond_fs) s2"
    by (rule closure_copies_each_name_once
          [THEN conjunct2, THEN conjunct2, rule_format, OF s2(1)])
  have g1: "copy_shared_libs_recursive (Suc 0) content_host (Path ''/hb/lib/libg.so'')
              (Path ''/out'') (Path ''/hb'') [Path ''/hb/lib''] s1 = Some (Inr s1)"
    by (rule closure_copies_each_name_once
          [THEN conjunct1, rule_format, OF s1(3), THEN conjunct1])
  have g2: "copy_dylibs_recursive (Suc 0) content_host (Path ''/hb/lib/libg.so'')
              (Path ''/out'') (Path ''/hb'') s2 = Some (Inr s2)"
    by (rule closure_copies_each_name_once
          [THEN conjunct1, rule_format, OF s2(3), THEN conjunct2])
  show ?thesis using s1 s2 c1 c2 g1 g2 by blast
qed

subsection \<open>The lister runs on the copied file\<close>

lemma srcs_append: "srcs (xs @ ys) = srcs xs @ srcs ys"
  by (induction xs rule: srcs.induct) auto

lemma lists_the_copies_refl: "lists_the_copies out s s"
  unfolding lists_the_copies_def by (rule exI[of _ "[]"], rule exI[of _ "[]"]) simp

lemma lists_the_copies_trans:
  assumes "lists_the_copies out s t" "lists_the_copies out t u"
  shows "lists_the_copies out s u"
proof -
  from assms(1) obtain ns1 new1 where 1: "trace t = trace s @ new1" "listed new1 = dests new1"
    "dests new1 = map (joinpath out) ns1" "list_all2 (\<lambda>src p. src \<noteq> p) (srcs new1) (listed new1)"
    unfolding lists_the_copies_def by blast
  from assms(2) obtain ns2 new2 where 2: "trace u = trace t @ new2" "listed new2 = dests new2"
    "dests new2 = map (joinpath out) ns2" "list_all2 (\<lambda>src p. src \<noteq> p) (srcs new2) (listed new2)"
    unfolding lists_the_copies_def by blast
  have "trace u = trace s @ (new1 @ new2)" using 1 2 by simp
  moreover have "listed (new1 @ new2) = dests (new1 @ new2)"
    using 1 2 by (simp add: dests_append listed_append)
  moreover have "dests (new1 @ new2) = map (joinpath out) (ns1 @ ns2)"
    using 1 2 by (simp add: dests_append)
  moreover have "list_all2 (\<lambda>src p. src \<noteq> p) (srcs (new1 @ new2)) (listed (new1 @ new2))"
    using 1(4) 2(4) by (simp add: srcs_append listed_append list_all2_appendI)
  ultimately show ?thesis unfolding lists_the_copies_def by blast
qed

lemma lists_the_copies_logger: "lists_the_copies out s (logger lvl msg s)"
  unfolding lists_the_copies_def
  by (rule exI[of _ "[]"], rule exI[of _ "[Log lvl msg]"]) (simp add: logger_def)

lemma lists_the_copies_copy_step:
  assumes "copy_step H out p s = Inr s6"
  shows "lists_the_copies out s s6"
  unfolding lists_the_copies_def
  apply (rule exI[of _ "[path_name p]"])
  using assms
  by (auto simp: copy_step_def copy2_def logger_def Let_def split: option.splits if_splits)

lemma walk_lists_the_copies:
  "walk n skip pick H out p s = Some (Inr s') \<Longrightarrow> lists_the_copies out s s'"
  by (rule walk_rel[where R = "lists_the_copies out"])
     (auto intro: lists_the_copies_refl lists_the_copies_trans lists_the_copies_logger
        lists_the_copies_copy_step)

lemma walk_unfold_copy:
  assumes "path_name p \<notin> copied s" "\<not> skip p" "exists (files s) p"
    "copy_step H out p s = Inr s6"
  shows "walk (Suc n) skip pick H out p s =
         for_each (\<lambda>dep t. case pick (files t) dep of None \<Rightarrow> Some (Inr t)
                            | Some q \<Rightarrow> walk n skip pick H out q t)
           (list_deps H (files s6) (joinpath out (path_name p))) s6"
  using assms by simp

lemma copy_step_content:
  assumes "copy_step H out p s = Inr s6"
  shows "map_of (files s6) (joinpath out (path_name p)) = map_of (files s) (realpath H p)"
  using copy_step_Inr(2)[OF assms] by (auto simp: update_conv')

lemma linux_unfold_copy:
  assumes "path_name p \<notin> copied s" "\<not> linux_skip p" "exists (files s) p"
    "copy_step H out p s = Inr s6"
  shows "copy_shared_libs_recursive (Suc n) H p out hb sps s =
         for_each (\<lambda>dep t. case linux_pick hb sps (files t) dep of None \<Rightarrow> Some (Inr t)
                            | Some q \<Rightarrow> copy_shared_libs_recursive n H q out hb sps t)
           (list_deps H (files s6) (joinpath out (path_name p))) s6"
  unfolding copy_shared_libs_recursive_walk
  using assms by (intro walk_unfold_copy[where skip = linux_skip]) simp_all

lemma macos_unfold_copy:
  assumes "path_name p \<notin> copied s" "\<not> macos_skip p" "exists (files s) p"
    "copy_step H out p s = Inr s6"
  shows "copy_dylibs_recursive (Suc n) H p out hb s =
         for_each (\<lambda>dep t. case macos_pick hb (files t) dep of None \<Rightarrow> Some (Inr t)
                            | Some q \<Rightarrow> copy_dylibs_recursive n H q out hb t)
           (list_deps H (files s6) (joinpath out (path_name p))) s6"
  unfolding copy_dylibs_recursive_walk
  using assms by (intro walk_unfold_copy[where skip = macos_skip]) simp_all

text \<open>
  C6. Whenever a builder copies a library, the list of dependencies it then iterates
  over is the lister's answer for the destination file \<open>output_dir / lib_name\<close>, whose
  content is the copy just made. Over a whole run, the paths handed to the lister are,
  in order, exactly the destinations of the copies, each in the output directory and
  none equal to the source of its copy.
\<close>

theorem lister_runs_on_destination:
  "(path_name lib_path \<notin> copied s \<and> exists (files s) lib_path \<and>
    copy_step H output_dir lib_path s = Inr s6 \<longrightarrow>
      map_of (files s6) (joinpath output_dir (path_name lib_path))
        = map_of (files s) (realpath H lib_path) \<and>
      (\<not> linux_skip lib_path \<longrightarrow>
        copy_shared_libs_recursive (Suc n) H lib_path output_dir homebrew_prefix search_paths s =
        for_each (\<lambda>dep t. case linux_pick homebrew_prefix search_paths (files t) dep of
                    None \<Rightarrow> Some (Inr t)
                  | Some q \<Rightarrow> copy_shared_libs_recursive n H q output_dir homebrew_prefix
                                search_paths t)
          (list_deps H (files s6) (joinpath output_dir (path_name lib_path))) s6) \<and>
      (\<not> macos_skip lib_path \<longrightarrow>
        copy_dylibs_recursive (Suc n) H lib_path output_dir homebrew_prefix s =
        for_each (\<lambda>dep t. case macos_pick homebrew_prefix (files t) dep of
                    None \<Rightarrow> Some (Inr t)
                  | Some q \<Rightarrow> copy_dylibs_recursive n H q output_dir homebrew_prefix t)
          (list_deps H (files s6) (joinpath output_dir (path_name lib_path))) s6)) \<and>
   (copy_shared_libs_recursive n H lib_path output_dir homebrew_prefix search_paths s
      = Some (Inr s') \<longrightarrow> lists_the_copies output_dir s s') \<and>
   (copy_dylibs_recursive n H lib_path output_dir homebrew_prefix s = Some (Inr s')
      \<longrightarrow> lists_the_copies output_dir s s')"
  using linux_unfold_copy[of lib_path s H output_dir s6 n homebrew_prefix search_paths]
        macos_unfold_copy[of lib_path s H output_dir s6 n homebrew_prefix]
        copy_step_content[of H output_dir lib_path s s6]
        walk_lists_the_copies[of n linux_skip "linux_pick homebrew_prefix search_paths" H
          output_dir lib_path s s']
        walk_lists_the_copies[of n macos_skip "macos_pick homebrew_prefix" H
          output_dir lib_path s s']
  unfolding copy_shared_libs_recursive_walk copy_dylibs_recursive_walk
  by blast

lemma diamond_copy_step:
  "\<exists>s6. copy_step content_host (Path ''/out'') (Path ''/hb/lib/libvips.so'') (start diamond_fs)
           = Inr s6"
  by (simp add: diamond_fs_def run_simps)

lemma diamond_linux_listed:
  "\<exists>s'. copy_shared_libs_recursive 4 content_host (Path ''/hb/lib/libvips.so'') (Path ''/out'')
           (Path ''/hb'') [Path ''/hb/lib''] (start diamond_fs) = Some (Inr s') \<and>
        listed (trace s') = [Path ''/out/libvips.so'', Path ''/out/liba.so'',
                             Path ''/out/libg.so'', Path ''/out/libb.so'']"
  by (simp add: copy_shared_libs_recursive_walk diamond_fs_def run_simps)

lemma diamond_macos_listed:
  "\<exists>s'. copy_dylibs_recursive 4 content_host (Path ''/hb/lib/libvips.so'') (Path ''/out'')
           (Path ''/hb'') (start diamond_fs) = Some (Inr s') \<and>
        listed (trace s') = [Path ''/out/libvips.so'', Path ''/out/liba.so'',
                             Path ''/out/libg.so'', Path ''/out/libb.so'']"
  by (simp add: copy_dylibs_recursive_walk diamond_fs_def run_simps)

theorem lister_runs_on_destination_witness:
  "(\<exists>s6. copy_step content_host (Path ''/out'') (Path ''/hb/lib/libvips.so'') (start diamond_fs)
            = Inr s6 \<and>
      map_of (files s6) (joinpath (Path ''/out'') (path_name (Path ''/hb/lib/libvips.so'')))
        = map_of (files (start diamond_fs)) (realpath content_host (Path ''/hb/lib/libvips.so'')) \<and>
      copy_shared_libs_recursive (Suc 3) content_host (Path ''/hb/lib/libvips.so'') (Path ''/out'')
          (Path ''/hb'') [Path ''/hb/lib''] (start diamond_fs) =
        for_each (\<lambda>dep t. case linux_pick (Path ''/hb'') [Path ''/hb/lib''] (files t) dep of
                    None \<Rightarrow> Some (Inr t)
                  | Some q \<Rightarrow> copy_shared_libs_recursive 3 content_host q (Path ''/out'')
                                (Path ''/hb'') [Path ''/hb/lib''] t)
          (list_deps content_host (files s6)
             (joinpath (Path ''/out'') (path_name (Path ''/hb/lib/libvips.so'')))) s6 \<and>
      copy_dylibs_recursive (Suc 3) content_host (Path ''/hb/lib/libvips.so'') (Path ''/out'')
          (Path ''/hb'') (start diamond_fs) =
        for_each (\<lambda>dep t. case macos_pick (Path ''/hb'') (files t) dep of
                    None \<Rightarrow> Some (Inr t)
                  | Some q \<Rightarrow> copy_dylibs_recursive 3 content_host q (Path ''/out'')
                                (Path ''/hb'') t)
          (list_deps content_host (files s6)
             (joinpath (Path ''/out'') (path_name (Path ''/hb/lib/libvips.so'')))) s6) \<and>
   (\<exists>s'. copy_shared_libs_recursive 4 content_host (Path ''/hb/lib/libvips.so'') (Path ''/out'')
           (Path ''/hb'') [Path ''/hb/lib''] (start diamond_fs) = Some (Inr s') \<and>
         listed (trace s') = [Path ''/out/libvips.so'', Path ''/out/liba.so'',
                              Path ''/out/libg.so'', Path ''/out/libb.so''] \<and>
         lists_the_copies (Path ''/out'') (start diamond_fs) s') \<and>
   (\<exists>s'. copy_dylibs_recursive 4 content_host (Path ''/hb/lib/libvips.so'') (Path ''/out'')
           (Path ''/hb'') (start diamond_fs) = Some (Inr s') \<and>
         listed (trace s') = [Path ''/out/libvips.so'', Path ''/out/liba.so'',
                              Path ''/out/libg.so'', Path ''/out/libb.so''] \<and>
         lists_the_copies (Path ''/out'') (start diamond_fs) s')"
proof -
  obtain s6 where s6:
    "copy_step content_host (Path ''/out'') (Path ''/hb/lib/libvips.so'') (start diamond_fs) = Inr s6"
    using diamond_copy_step by blast
  have pre: "path_name (Path ''/hb/lib/libvips.so'') \<notin> copied (start diamond_fs) \<and>
             exists (files (start diamond_fs)) (Path ''/hb/lib/libvips.so'') \<and>
             copy_step content_host (Path ''/out'') (Path ''/hb/lib/libvips.so'') (start diamond_fs)
               = Inr s6"
    using s6 by (simp add: diamond_fs_def start_def exists_def Path_def startswith_def)
  have nl: "\<not> linux_skip (Path ''/hb/lib/libvips.so'')"
    by (simp add: run_simps)
  have nm: "\<not> macos_skip (Path ''/hb/lib/libvips.so'')"
    by (simp add: run_simps)
  note a = lister_runs_on_destination[THEN conjunct1, rule_format, OF pre]
  obtain s1 where s1:
    "copy_shared_libs_recursive 4 content_host (Path ''/hb/lib/libvips.so'') (Path ''/out'')
       (Path ''/hb'') [Path ''/hb/lib''] (start diamond_fs) = Some (Inr s1)"
    "listed (trace s1) = [Path ''/out/libvips.so'', Path ''/out/liba.so'',
                          Path ''/out/libg.so'', Path ''/out/libb.so'']"
    using diamond_linux_listed by blast
  obtain s2 where s2:
    "copy_dylibs_recursive 4 content_host (Path ''/hb/lib/libvips.so'') (Path ''/out'')
       (Path ''/hb'') (start diamond_fs) = Some (Inr s2)"
    "listed (trace s2) = [Path ''/out/libvips.so'', Path ''/out/liba.so'',
                          Path ''/out/libg.so'', Path ''/out/libb.so'']"
    using diamond_macos_listed by blast
  have l1: "lists_the_copies (Path ''/out'') (start diamond_fs) s1"
    by (rule lister_runs_on_destination
          [THEN conjunct2, THEN conjunct1, rule_format, OF s1(1)])
  have l2: "lists_the_copies (Path ''/out'') (start diamond_fs) s2"
    by (rule lister_runs_on_destination
          [THEN conjunct2, THEN conjunct2, rule_format, OF s2(1)])
  have first: "\<exists>s6. copy_step content_host (Path ''/out'') (Path ''/hb/lib/libvips.so'') (start diamond_fs)
            = Inr s6 \<and>
      map_of (files s6) (joinpath (Path ''/out'') (path_name (Path ''/hb/lib/libvips.so'')))
        = map_of (files (start diamond_fs)) (realpath content_host (Path ''/hb/lib/libvips.so'')) \<and>
      copy_shared_libs_recursive (Suc 3) content_host (Path ''/hb/lib/libvips.so'') (Path ''/out'')
          (Path ''/hb'') [Path ''/hb/lib''] (start diamond_fs) =
        for_each (\<lambda>dep t. case linux_pick (Path ''/hb'') [Path ''/hb/lib''] (files t) dep of
                    None \<Rightarrow> Some (Inr t)
                  | Some q \<Rightarrow> copy_shared_libs_recursive 3 content_host q (Path ''/out'')
                                (Path ''/hb'') [Path ''/hb/lib''] t)
          (list_deps content_host (files s6)
             (joinpath (Path ''/out'') (path_name (Path ''/hb/lib/libvips.so'')))) s6 \<and>
      copy_dylibs_recursive (Suc 3) content_host (Path ''/hb/lib/libvips.so'') (Path ''/out'')
          (Path ''/hb'') (start diamond_fs) =
        for_each (\<lambda>dep t. case macos_pick (Path ''/hb'') (files t) dep of
                    None \<Rightarrow> Some (Inr t)
                  | Some q \<Rightarrow> copy_dylibs_recursive 3 content_host q (Path ''/out'')
                                (Path ''/hb'') t)
          (list_deps content_host (files s6)
             (joinpath (Path ''/out'') (path_name (Path ''/hb/lib/libvips.so'')))) s6"
    apply (rule exI[of _ s6])
    using s6 a[THEN conjunct1] a[THEN conjunct2, THEN conjunct1, rule_format, OF nl]
      a[THEN conjunct2, THEN conjunct2, rule_format, OF nm]
    by blast
  show ?thesis using first s1 s2 l1 l2 by blast
qed

subsection \<open>System libraries\<close>

lemma for_each_copies_once:
  assumes "for_each (\<lambda>dep t. case pick (files t) dep of None \<Rightarrow> Some (Inr t)
                      | Some q \<Rightarrow> walk n skip pick H out q t) ds s = Some (Inr s')"
  shows "copies_once out s s'"
  by (rule for_each_rel[where R = "copies_once out", OF copies_once_refl copies_once_trans _ assms])
     (auto split: option.splits intro: copies_once_refl walk_copies_once)

lemma copies_once_mono:
  assumes "copies_once out s s'"
  shows "copied s \<subseteq> copied s'" and "set (trace s) \<subseteq> set (trace s')"
  using assms unfolding copies_once_def by auto

lemma walk_copies_node:
  assumes "walk (Suc n) skip pick H out p s = Some (Inr s')"
    and "path_name p \<notin> copied s" "\<not> skip p" "exists (files s) p"
  shows "path_name p \<in> copied s'"
    and "Copy2 (realpath H p) (joinpath out (path_name p)) \<in> set (trace s')"
    and "ListDeps (joinpath out (path_name p)) \<in> set (trace s')"
proof -
  from assms obtain s6 where s6: "copy_step H out p s = Inr s6"
    and loop: "for_each (\<lambda>dep t. case pick (files t) dep of None \<Rightarrow> Some (Inr t)
                    | Some q \<Rightarrow> walk n skip pick H out q t)
                  (list_deps H (files s6) (joinpath out (path_name p))) s6 = Some (Inr s')"
    by (auto split: sum.splits)
  note m = copies_once_mono[OF for_each_copies_once[OF loop]]
  from copy_step_Inr(4)[OF s6] obtain logs where
    t: "trace s6 = trace s @ [Log INFO (''Copying: '' @ path_str p),
              Copy2 (realpath H p) (joinpath out (path_name p))] @ logs @
              [ListDeps (joinpath out (path_name p))]"
    by blast
  show "path_name p \<in> copied s'" using copy_step_Inr(1)[OF s6] m(1) by auto
  show "Copy2 (realpath H p) (joinpath out (path_name p)) \<in> set (trace s')"
    using t m(2) by auto
  show "ListDeps (joinpath out (path_name p)) \<in> set (trace s')"
    using t m(2) by auto
qed

text \<open>
  C2, as stated, gives the macOS builder the allow-list of the Linux one. It has none:
  \<open>/usr/lib/libstdc++.6.dylib\<close> exists and carries an allow-listed name, and the macOS
  builder skips it.
\<close>

theorem macos_allow_list_counterexample:
  "contains ''libstdc++'' (path_name (Path ''/usr/lib/libstdc++.6.dylib'')) \<and>
   exists runtime_fs (Path ''/usr/lib/libstdc++.6.dylib'') \<and>
   copy_dylibs_recursive (Suc 0) content_host (Path ''/usr/lib/libstdc++.6.dylib'') (Path ''/out'')
     (Path ''/hb'') (start runtime_fs) =
   Some (Inr (logger DEBUG ''Skipping system library: /usr/lib/libstdc++.6.dylib''
                (start runtime_fs)))"
  by (simp add: runtime_fs_def run_simps)

text \<open>
  C2, amended. On Linux a library whose path string starts with \<open>/lib\<close>, \<open>/lib64\<close>,
  \<open>/usr/lib\<close> or \<open>/usr/lib64\<close> and whose file name contains neither \<open>libstdc++\<close> nor
  \<open>libgcc_s\<close> is skipped: the builder returns at once, having at most logged the skip,
  so nothing is copied and no dependency is visited. A library whose name contains one
  of the two is treated as any other: if it exists and its name is not yet copied, it
  is copied and the lister is run on the copy, whatever its path. On macOS a library
  whose path string starts with \<open>/usr/lib\<close> or \<open>/System\<close> is skipped in the same way,
  whatever its name.
\<close>

theorem system_libraries_are_skipped:
  "(linux_skip lib_path \<longrightarrow>
      copy_shared_libs_recursive (Suc n) H lib_path output_dir homebrew_prefix search_paths s =
      Some (Inr (if path_name lib_path \<in> copied s then s
                 else logger DEBUG (''Skipping system library: '' @ path_str lib_path) s))) \<and>
   (macos_skip lib_path \<longrightarrow>
      copy_dylibs_recursive (Suc n) H lib_path output_dir homebrew_prefix s =
      Some (Inr (if path_name lib_path \<in> copied s then s
                 else logger DEBUG (''Skipping system library: '' @ path_str lib_path) s))) \<and>
   (list_ex (\<lambda>essential. contains essential (path_name lib_path)) essential_libs \<and>
    path_name lib_path \<notin> copied s \<and> exists (files s) lib_path \<and>
    copy_shared_libs_recursive (Suc n) H lib_path output_dir homebrew_prefix search_paths s
      = Some (Inr s') \<longrightarrow>
      path_name lib_path \<in> copied s' \<and>
      Copy2 (realpath H lib_path) (joinpath output_dir (path_name lib_path)) \<in> set (trace s') \<and>
      ListDeps (joinpath output_dir (path_name lib_path)) \<in> set (trace s'))"
proof (intro conjI impI)
  assume "linux_skip lib_path"
  then show "copy_shared_libs_recursive (Suc n) H lib_path output_dir homebrew_prefix
      search_paths s =
      Some (Inr (if path_name lib_path \<in> copied s then s
                 else logger DEBUG (''Skipping system library: '' @ path_str lib_path) s))"
    by (simp add: copy_shared_libs_recursive_walk)
next
  assume "macos_skip lib_path"
  then show "copy_dylibs_recursive (Suc n) H lib_path output_dir homebrew_prefix s =
      Some (Inr (if path_name lib_path \<in> copied s then s
                 else logger DEBUG (''Skipping system library: '' @ path_str lib_path) s))"
    by (simp add: copy_dylibs_recursive_walk)
next
  assume a: "list_ex (\<lambda>essential. contains essential (path_name lib_path)) essential_libs \<and>
    path_name lib_path \<notin> copied s \<and> exists (files s) lib_path \<and>
    copy_shared_libs_recursive (Suc n) H lib_path output_dir homebrew_prefix search_paths s
      = Some (Inr s')"
  then have ns: "\<not> linux_skip lib_path" by (simp add: linux_skip_def)
  have w: "walk (Suc n) linux_skip (linux_pick homebrew_prefix search_paths) H output_dir
             lib_path s = Some (Inr s')"
    using a unfolding copy_shared_libs_recursive_walk by blast
  show "path_name lib_path \<in> copied s'"
    using walk_copies_node(1)[OF w] a ns by blast
  show "Copy2 (realpath H lib_path) (joinpath output_dir (path_name lib_path)) \<in> set (trace s')"
    using walk_copies_node(2)[OF w] a ns by blast
  show "ListDeps (joinpath output_dir (path_name lib_path)) \<in> set (trace s')"
    using walk_copies_node(3)[OF w] a ns by blast
qed

lemma runtime_linux_run:
  "\<exists>s'. copy_shared_libs_recursive (Suc 0) content_host (Path ''/usr/lib/libstdc++.so.6'')
          (Path ''/out'') (Path ''/hb'') [Path ''/hb/lib''] (start runtime_fs) = Some (Inr s')"
  by (simp add: copy_shared_libs_recursive_walk runtime_fs_def run_simps)

theorem system_libraries_are_skipped_witness:
  "linux_skip (Path ''/usr/lib/libc.so.6'') \<and>
   copy_shared_libs_recursive (Suc 0) content_host (Path ''/usr/lib/libc.so.6'') (Path ''/out'')
     (Path ''/hb'') [Path ''/hb/lib''] (start runtime_fs) =
   Some (Inr (logger DEBUG ''Skipping system library: /usr/lib/libc.so.6'' (start runtime_fs))) \<and>
   macos_skip (Path ''/usr/lib/libc.so.6'') \<and>
   copy_dylibs_recursive (Suc 0) content_host (Path ''/usr/lib/libc.so.6'') (Path ''/out'')
     (Path ''/hb'') (start runtime_fs) =
   Some (Inr (logger DEBUG ''Skipping system library: /usr/lib/libc.so.6'' (start runtime_fs))) \<and>
   (\<exists>s'. copy_shared_libs_recursive (Suc 0) content_host (Path ''/usr/lib/libstdc++.so.6'')
          (Path ''/out'') (Path ''/hb'') [Path ''/hb/lib''] (start runtime_fs) = Some (Inr s') \<and>
        ''libstdc++.so.6'' \<in> copied s' \<and>
        Copy2 (Path ''/usr/lib/libstdc++.so.6'') (Path ''/out/libstdc++.so.6'') \<in> set (trace s') \<and>
        ListDeps (Path ''/out/libstdc++.so.6'') \<in> set (trace s'))"
proof -
  have l: "linux_skip (Path ''/usr/lib/libc.so.6'')" by (simp add: run_simps)
  have m: "macos_skip (Path ''/usr/lib/libc.so.6'')" by (simp add: run_simps)
  note t1 = system_libraries_are_skipped[THEN conjunct1, rule_format, OF l,
      of 0 content_host "Path ''/out''" "Path ''/hb''" "[Path ''/hb/lib'']" "start runtime_fs"]
  note t2 = system_libraries_are_skipped[THEN conjunct2, THEN conjunct1, rule_format, OF m,
      of 0 content_host "Path ''/out''" "Path ''/hb''" "start runtime_fs"]
  obtain s' where s': "copy_shared_libs_recursive (Suc 0) content_host
      (Path ''/usr/lib/libstdc++.so.6'') (Path ''/out'') (Path ''/hb'') [Path ''/hb/lib'']
      (start runtime_fs) = Some (Inr s')"
    using runtime_linux_run by blast
  have pre: "list_ex (\<lambda>essential. contains essential (path_name (Path ''/usr/lib/libstdc++.so.6'')))
               essential_libs \<and>
    path_name (Path ''/usr/lib/libstdc++.so.6'') \<notin> copied (start runtime_fs) \<and>
    exists (files (start runtime_fs)) (Path ''/usr/lib/libstdc++.so.6'') \<and>
    copy_shared_libs_recursive (Suc 0) content_host (Path ''/usr/lib/libstdc++.so.6'')
      (Path ''/out'') (Path ''/hb'') [Path ''/hb/lib''] (start runtime_fs) = Some (Inr s')"
    using s' by (simp add: runtime_fs_def run_simps)
  note t3 = system_libraries_are_skipped[THEN conjunct2, THEN conjunct2, rule_format, OF pre]
  have "''libstdc++.so.6'' \<in> copied s' \<and>
        Copy2 (Path ''/usr/lib/libstdc++.so.6'') (Path ''/out/libstdc++.so.6'') \<in> set (trace s') \<and>
        ListDeps (Path ''/out/libstdc++.so.6'') \<in> set (trace s')"
    using t3 by (simp add: run_simps)
  then show ?thesis using l m t1 t2 s' by (simp add: run_simps)
qed

subsection \<open>Every library reached is copied or reported\<close>













subsection \<open>The Windows script without a matching asset\<close>

lemma find_None_iff: "(find P xs = None) = (\<forall>x \<in> set xs. \<not> P x)"
  by (induction xs) auto

lemma find_Some_holds: "find P xs = Some x \<Longrightarrow> P x \<and> x \<in> set xs"
  by (induction xs) (auto split: if_splits)

lemma find_asset_for_arch_None:
  "(snd (find_asset_for_arch ri arch bt) = None) =
   (\<forall>a \<in> set (assets_of ri). \<not> asset_matches (dict_get ARCH_MAP arch arch) bt (asset_name a))"
proof
  assume "snd (find_asset_for_arch ri arch bt) = None"
  then have "find (\<lambda>a. asset_matches (dict_get ARCH_MAP arch arch) bt (asset_name a))
               (assets_of ri) = None"
    by (auto simp: find_asset_for_arch_def Let_def split: option.splits)
  then show "\<forall>a \<in> set (assets_of ri).
      \<not> asset_matches (dict_get ARCH_MAP arch arch) bt (asset_name a)"
    by (simp add: find_None_iff)
next
  assume a: "\<forall>a \<in> set (assets_of ri).
      \<not> asset_matches (dict_get ARCH_MAP arch arch) bt (asset_name a)"
  then have "find (\<lambda>a. asset_matches (dict_get ARCH_MAP arch arch) bt (asset_name a))
               (assets_of ri) = None"
    and "find (\<lambda>a. asset_matches (dict_get ARCH_MAP arch arch) bt (asset_name a) \<and>
                     \<not> contains ''ffi'' (asset_name a)) (assets_of ri) = None"
    by (simp_all add: find_None_iff)
  then show "snd (find_asset_for_arch ri arch bt) = None"
    by (simp add: find_asset_for_arch_def Let_def)
qed

text \<open>
  C5. When the release information has been fetched and no asset name contains the
  architecture suffix and the build type and ends in \<open>.zip\<close>, the process exits with
  code 1 and the last lines of its log are the error, the heading \<open>Available assets:\<close>
  and one line per asset of the release, all of them, in order. A run that finds an
  asset, reads its version and installs it without an exception exits with code 0.
\<close>

theorem main_windows_exit_codes:
  "((\<forall>a \<in> set (assets_of ri).
        \<not> asset_matches (dict_get ARCH_MAP (args_arch args) (args_arch args))
             (args_build_type args) (asset_name a)) \<longrightarrow>
      snd (main_windows (Inr ri) install args) = Exit 1 \<and>
      exit_code (snd (main_windows (Inr ri) install args)) = 1 \<and>
      (\<exists>before. fst (main_windows (Inr ri) install args) =
         before @
         [Log ERROR (''Could not find a download for architecture: '' @ args_arch args
            @ '', build type: '' @ args_build_type args),
          Log ERROR ''Available assets:''] @
         map (\<lambda>a. Log ERROR (''  - '' @ asset_name a)) (assets_of ri))) \<and>
   (snd (find_asset_for_arch ri (args_arch args) (args_build_type args)) = Some (url, filename) \<and>
    get_version_from_filename filename = Inr v \<and> install url filename = Inr copied_files \<longrightarrow>
      snd (main_windows (Inr ri) install args) = Exit 0 \<and>
      exit_code (snd (main_windows (Inr ri) install args)) = 0)"
proof (intro conjI impI)
  assume a: "\<forall>a \<in> set (assets_of ri).
        \<not> asset_matches (dict_get ARCH_MAP (args_arch args) (args_arch args))
             (args_build_type args) (asset_name a)"
  then have n: "snd (find_asset_for_arch ri (args_arch args) (args_build_type args)) = None"
    by (simp add: find_asset_for_arch_None)
  obtain found_log where f:
    "find_asset_for_arch ri (args_arch args) (args_build_type args) = (found_log, None)"
    using n by (cases "find_asset_for_arch ri (args_arch args) (args_build_type args)") simp
  show e: "snd (main_windows (Inr ri) install args) = Exit 1"
    using f by (simp add: main_windows_def Let_def)
  then show "exit_code (snd (main_windows (Inr ri) install args)) = 1"
    by (simp add: exit_code_def)
  show "\<exists>before. fst (main_windows (Inr ri) install args) =
         before @
         [Log ERROR (''Could not find a download for architecture: '' @ args_arch args
            @ '', build type: '' @ args_build_type args),
          Log ERROR ''Available assets:''] @
         map (\<lambda>a. Log ERROR (''  - '' @ asset_name a)) (assets_of ri)"
    using f by (simp add: main_windows_def Let_def)
next
  assume b: "snd (find_asset_for_arch ri (args_arch args) (args_build_type args))
               = Some (url, filename) \<and>
    get_version_from_filename filename = Inr v \<and> install url filename = Inr copied_files"
  then obtain found_log where f:
    "find_asset_for_arch ri (args_arch args) (args_build_type args)
       = (found_log, Some (url, filename))"
    by (cases "find_asset_for_arch ri (args_arch args) (args_build_type args)") simp
  show e: "snd (main_windows (Inr ri) install args) = Exit 0"
    using f b by (simp add: main_windows_def Let_def)
  then show "exit_code (snd (main_windows (Inr ri) install args)) = 0"
    by (simp add: exit_code_def)
qed

theorem main_windows_exit_codes_witness:
  "find_asset_for_arch w64_release ''arm64'' ''web'' =
     ([Log INFO ''Looking for architecture: arm64 (suffix: arm64), build type: web''], None) \<and>
   exit_code (snd (main_windows (Inr w64_release) (\<lambda>url f. Inr [''libvips-42.dll''])
                     (windows_request ''arm64''))) = 1 \<and>
   (\<exists>before. fst (main_windows (Inr w64_release) (\<lambda>url f. Inr [''libvips-42.dll''])
                     (windows_request ''arm64'')) =
      before @
      [Log ERROR ''Could not find a download for architecture: arm64, build type: web'',
       Log ERROR ''Available assets:'',
       Log ERROR ''  - vips-dev-w64-web-8.17.0-static-ffi.zip'',
       Log ERROR ''  - vips-dev-w64-web-8.17.0-static.zip'']) \<and>
   snd (find_asset_for_arch w64_release ''x64'' ''web'') =
     Some (''https://example.org/web.zip'', ''vips-dev-w64-web-8.17.0-static.zip'') \<and>
   exit_code (snd (main_windows (Inr w64_release) (\<lambda>url f. Inr [''libvips-42.dll''])
                     (windows_request ''x64''))) = 0"
proof -
  have none: "\<forall>a \<in> set (assets_of w64_release).
        \<not> asset_matches (dict_get ARCH_MAP (args_arch (windows_request ''arm64''))
               (args_arch (windows_request ''arm64'')))
             (args_build_type (windows_request ''arm64'')) (asset_name a)"
    by (simp add: w64_release_def assets_of_def asset_matches_def dict_get_def ARCH_MAP_def
          windows_request_def endswith_def)
  note t1 = main_windows_exit_codes[where install = "\<lambda>url f. Inr [''libvips-42.dll'']",
      THEN conjunct1, THEN mp, OF none]
  have some: "snd (find_asset_for_arch w64_release (args_arch (windows_request ''x64''))
                 (args_build_type (windows_request ''x64''))) =
              Some (''https://example.org/web.zip'', ''vips-dev-w64-web-8.17.0-static.zip'') \<and>
      get_version_from_filename ''vips-dev-w64-web-8.17.0-static.zip'' = Inr ''8.17.0'' \<and>
      (\<lambda>url f. Inr [''libvips-42.dll''] :: exn + string list) ''https://example.org/web.zip''
        ''vips-dev-w64-web-8.17.0-static.zip'' = Inr [''libvips-42.dll'']"
    by (simp add: find_asset_for_arch_def w64_release_def assets_of_def asset_matches_def
          dict_get_def ARCH_MAP_def windows_request_def endswith_def
          get_version_from_filename_def isdigit_def)
  note t2 = main_windows_exit_codes[THEN conjunct2, THEN mp, OF some]
  have sel: "args_arch (windows_request ''arm64'') = ''arm64''"
    "args_arch (windows_request ''x64'') = ''x64''"
    "args_build_type (windows_request ''arm64'') = ''web''"
    "args_build_type (windows_request ''x64'') = ''web''"
    by (simp_all add: windows_request_def)
  have names: "map (\<lambda>a. Log ERROR (''  - '' @ asset_name a)) (assets_of w64_release) =
      [Log ERROR ''  - vips-dev-w64-web-8.17.0-static-ffi.zip'',
       Log ERROR ''  - vips-dev-w64-web-8.17.0-static.zip'']"
    by (simp add: w64_release_def assets_of_def)
  show ?thesis
    using t1 t2 some unfolding sel names
    by (simp add: exit_code_def find_asset_for_arch_def w64_release_def assets_of_def
          asset_matches_def dict_get_def ARCH_MAP_def endswith_def)
qed

subsection \<open>Files, traces and the patching loops\<close>

lemma files_logger [simp]: "files (logger lvl msg s) = files s"
  by (simp add: logger_def)

lemma copied_logger [simp]: "copied (logger lvl msg s) = copied s"
  by (simp add: logger_def)


lemma files_run_command [simp]: "files (run_command cmd s) = files s"
  by (simp add: run_command_def)

lemma copied_run_command [simp]: "copied (run_command cmd s) = copied s"
  by (simp add: run_command_def)


lemma trace_patch_file [simp]: "trace (patch_file tool p s) = trace s"
  by (simp add: patch_file_def split: option.splits)

lemma copied_patch_file [simp]: "copied (patch_file tool p s) = copied s"
  by (simp add: patch_file_def split: option.splits)

lemma map_of_patch_file:
  "map_of (files (patch_file tool p s)) f =
     (if f = p then map_option (\<lambda>c. case tool c of None \<Rightarrow> c | Some c' \<Rightarrow> c') (map_of (files s) f)
      else map_of (files s) f)"
  by (auto simp: patch_file_def update_conv' split: option.splits)

lemma exists_patch_file [simp]: "exists (files (patch_file tool p s)) f = exists (files s) f"
  by (auto simp: exists_def map_of_patch_file)


lemma glob_distinct: "distinct (glob fs d pat)"
  by (simp add: glob_def Let_def)

lemma glob_exists: "p \<in> set (glob fs d pat) \<Longrightarrow> exists fs p"
  by (auto simp: glob_def Let_def exists_def map_of_eq_None_iff)

lemma fnmatch_star [simp]: "fnmatch n ''*''"
  by (induction n) auto




subsection \<open>The Linux rewriter\<close>








subsection \<open>The path-rewrite flag\<close>






















subsection \<open>Components of a parsed path\<close>

lemma split_on_no_sep: "sep \<notin> set s \<Longrightarrow> split_on sep s = [s]"
  by (induction s) auto

lemma split_on_nonempty [simp]: "split_on sep s \<noteq> []"
  by (induction s) (auto split: list.splits)

lemma split_on_append_sep:
  "sep \<notin> set a \<Longrightarrow> split_on sep (a @ sep # b) = a # split_on sep b"
  by (induction a) (auto split: list.splits)

lemma split_on_pieces: "w \<in> set (split_on sep s) \<Longrightarrow> sep \<notin> set w"
  by (induction s arbitrary: w) (auto split: if_splits list.splits)

lemma path_name_component:
  assumes "path_name (Path x) \<noteq> []"
  shows "CHR ''/'' \<notin> set (path_name (Path x))" and "path_name (Path x) \<noteq> ''.''"
proof -
  let ?cs = "filter (\<lambda>c. c \<noteq> '''' \<and> c \<noteq> ''.'') (split_on CHR ''/'' x)"
  have ne: "?cs \<noteq> []" using assms by (auto simp: path_name_def Path_def)
  then have "last ?cs \<in> set ?cs" by (rule last_in_set)
  moreover have "path_name (Path x) = last ?cs" using ne by (simp add: path_name_def Path_def)
  ultimately have m: "path_name (Path x) \<in> set ?cs" by simp
  then show "CHR ''/'' \<notin> set (path_name (Path x))" using split_on_pieces by fastforce
  show "path_name (Path x) \<noteq> ''.''" using m by auto
qed

lemma path_name_rpath:
  assumes "path_name (Path x) \<noteq> []"
  shows "path_name (Path (at_rpath (path_name (Path x)))) = path_name (Path x)"
proof -
  let ?n = "path_name (Path x)"
  have "split_on CHR ''/'' (''@rpath'' @ CHR ''/'' # ?n) = ''@rpath'' # split_on CHR ''/'' ?n"
    by (rule split_on_append_sep) simp
  then have "split_on CHR ''/'' (at_rpath ?n) = [''@rpath'', ?n]"
    using split_on_no_sep[OF path_name_component(1)[OF assms]] by (simp add: at_rpath_def)
  moreover have "\<not> startswith (at_rpath ?n) ''/''"
    by (simp add: at_rpath_def startswith_def)
  ultimately show ?thesis
    using assms path_name_component(2)[OF assms]
    by (simp add: Path_def path_name_def startswith_def)
qed

lemma joinpath_empty: "joinpath d [] = d"
  by (simp add: joinpath_def Path_def is_absolute_def startswith_def)

subsection \<open>The macOS rewriter on one library\<close>

text \<open>One \<open>-change\<close> on one reference, and a sequence of them.\<close>

lemma fold_change_pointwise:
  "fold (\<lambda>dep L. if E dep then map (\<lambda>r. if r = dep then R dep else r) L else L) deps L =
   map (fold (\<lambda>dep v. if E dep \<and> v = dep then R dep else v) deps) L"
proof (induction deps arbitrary: L)
  case Nil
  show ?case by simp
next
  case (Cons d deps)
  show ?case by (simp add: Cons comp_def cong: map_cong)
qed

lemma fold_change_stable:
  assumes "\<And>d. E d \<Longrightarrow> v = d \<Longrightarrow> R d = v"
  shows "fold (\<lambda>dep v. if E dep \<and> v = dep then R dep else v) deps v = v"
  using assms by (induction deps) auto

lemma fold_change_hit:
  assumes "E x" "x \<in> set deps" and "E (R x) \<Longrightarrow> R (R x) = R x"
  shows "fold (\<lambda>dep v. if E dep \<and> v = dep then R dep else v) deps x = R x"
  using assms(2)
proof (induction deps)
  case Nil
  then show ?case by simp
next
  case (Cons d deps)
  show ?case
  proof (cases "d = x")
    case True
    have "fold (\<lambda>dep v. if E dep \<and> v = dep then R dep else v) deps (R x) = R x"
      by (rule fold_change_stable) (use assms(3) in auto)
    then show ?thesis using True assms(1) by simp
  next
    case False
    then show ?thesis using Cons by simp
  qed
qed

lemma fold_change_miss:
  assumes "\<not> E x"
  shows "fold (\<lambda>dep v. if E dep \<and> v = dep then R dep else v) deps x = x"
  using assms by (intro fold_change_stable) auto

lemma fold_change_all:
  assumes "set L \<subseteq> set deps" and "\<And>x. E x \<Longrightarrow> E (R x) \<Longrightarrow> R (R x) = R x"
  shows "fold (\<lambda>dep L. if E dep then map (\<lambda>r. if r = dep then R dep else r) L else L) deps L =
         map (\<lambda>x. if E x then R x else x) L"
  unfolding fold_change_pointwise
  using assms by (intro map_cong) (auto simp: fold_change_hit fold_change_miss)

lemma exists_fix_dependency [simp]:
  "exists (files (fix_dependency T out dylib dep t)) q = exists (files t) q"
  by (simp add: fix_dependency_def Let_def)

lemma exists_fold_fix_dependency [simp]:
  "exists (files (fold (fix_dependency T out dylib) deps t)) q = exists (files t) q"
  by (induction deps arbitrary: t) simp_all

lemma map_of_fix_dependency_other:
  "q \<noteq> dylib \<Longrightarrow> map_of (files (fix_dependency T out dylib dep t)) q = map_of (files t) q"
  by (simp add: fix_dependency_def Let_def map_of_patch_file)

lemma map_of_fold_fix_dependency_other:
  "q \<noteq> dylib \<Longrightarrow>
   map_of (files (fold (fix_dependency T out dylib) deps t)) q = map_of (files t) q"
  by (induction deps arbitrary: t) (simp_all add: map_of_fix_dependency_other)

lemma map_of_fix_dependency_macho:
  assumes "map_of (files t) dylib = Some c"
  shows "map_of (files (fix_dependency macho_tools out dylib dep t)) dylib =
         Some (c\<lparr>load_commands :=
                 (if exists (files t) (joinpath out (path_name (Path dep)))
                  then map (\<lambda>r. if r = dep then at_rpath (path_name (Path dep)) else r)
                         (load_commands c)
                  else load_commands c)\<rparr>)"
  using assms by (simp add: fix_dependency_def Let_def map_of_patch_file macho_tools_def)

lemma map_of_fold_fix_dependency_macho:
  assumes "map_of (files t) dylib = Some c"
  shows "map_of (files (fold (fix_dependency macho_tools out dylib) deps t)) dylib =
         Some (c\<lparr>load_commands :=
           fold (\<lambda>dep L. if exists (files t) (joinpath out (path_name (Path dep)))
                          then map (\<lambda>r. if r = dep then at_rpath (path_name (Path dep)) else r) L
                          else L) deps (load_commands c)\<rparr>)"
  using assms
proof (induction deps arbitrary: t c)
  case Nil
  then show ?case by simp
next
  case (Cons d deps)
  let ?t = "fix_dependency macho_tools out dylib d t"
  let ?c = "c\<lparr>load_commands :=
                 (if exists (files t) (joinpath out (path_name (Path d)))
                  then map (\<lambda>r. if r = d then at_rpath (path_name (Path d)) else r)
                         (load_commands c)
                  else load_commands c)\<rparr>"
  have 1: "map_of (files ?t) dylib = Some ?c"
    by (rule map_of_fix_dependency_macho[OF Cons.prems])
  show ?case using Cons.IH[OF 1] by simp
qed

lemma rewrite_once_more:
  assumes "\<not> exists fs out"
    and "exists fs (joinpath out (path_name (Path x)))"
  shows "at_rpath (path_name (Path (at_rpath (path_name (Path x)))))
         = at_rpath (path_name (Path x))"
proof -
  have "path_name (Path x) \<noteq> []" using assms by (auto simp: joinpath_empty)
  then show ?thesis by (simp add: path_name_rpath)
qed

lemma exists_fix_dylib [simp]:
  "exists (files (fix_dylib H T out dylib t)) q = exists (files t) q"
  by (simp add: fix_dylib_def Let_def)

lemma map_of_fix_dylib_other:
  "q \<noteq> dylib \<Longrightarrow> map_of (files (fix_dylib H T out dylib t)) q = map_of (files t) q"
  by (simp add: fix_dylib_def Let_def map_of_fold_fix_dependency_other map_of_patch_file)

lemma map_of_fix_dylib_macho:
  assumes "map_of (files t) dylib = Some c" and "\<not> exists (files t) out"
  shows "map_of (files (fix_dylib macho_host macho_tools out dylib t)) dylib =
         Some \<lparr>install_name = at_rpath (path_name dylib),
               load_commands = map (rewrite_ref (files t) out) (load_commands c)\<rparr>"
proof -
  let ?id = "at_rpath (path_name dylib)"
  let ?t1 = "logger INFO (''Fixing: '' @ path_name dylib) t"
  let ?t2 = "patch_file (install_name_id macho_tools ?id) dylib
               (run_command [''install_name_tool'', ''-id'', ?id, path_str dylib] ?t1)"
  let ?t3 = "?t2\<lparr>trace := trace ?t2 @ [ListDeps dylib]\<rparr>"
  let ?c2 = "c\<lparr>install_name := ?id\<rparr>"
  have c2: "map_of (files ?t3) dylib = Some ?c2"
    using assms(1) by (simp add: map_of_patch_file macho_tools_def)
  have ex: "\<And>q. exists (files ?t3) q = exists (files t) q" by simp
  have deps: "list_deps macho_host (files ?t3) dylib = ?id # load_commands c"
    using c2 by (simp add: macho_host_def)
  have "map_of (files (fix_dylib macho_host macho_tools out dylib t)) dylib =
        map_of (files (fold (fix_dependency macho_tools out dylib) (?id # load_commands c) ?t3)) dylib"
    unfolding fix_dylib_def Let_def deps ..
  also have "\<dots> = Some (?c2\<lparr>load_commands :=
           fold (\<lambda>dep L. if exists (files ?t3) (joinpath out (path_name (Path dep)))
                          then map (\<lambda>r. if r = dep then at_rpath (path_name (Path dep)) else r) L
                          else L) (?id # load_commands c) (load_commands ?c2)\<rparr>)"
    by (rule map_of_fold_fix_dependency_macho[OF c2])
  also have "fold (\<lambda>dep L. if exists (files ?t3) (joinpath out (path_name (Path dep)))
                          then map (\<lambda>r. if r = dep then at_rpath (path_name (Path dep)) else r) L
                          else L) (?id # load_commands c) (load_commands ?c2) =
             map (\<lambda>x. if exists (files t) (joinpath out (path_name (Path x)))
                       then at_rpath (path_name (Path x)) else x) (load_commands c)"
  proof -
    have l: "load_commands ?c2 = load_commands c" by simp
    show ?thesis unfolding ex l
      by (rule fold_change_all[where E = "\<lambda>x. exists (files t) (joinpath out (path_name (Path x)))"
            and R = "\<lambda>x. at_rpath (path_name (Path x))"])
         (auto intro: rewrite_once_more[OF assms(2)])
  qed
  finally show ?thesis by (simp add: rewrite_ref_def[abs_def])
qed

lemma map_of_fix_dylib_missing:
  assumes "map_of (files t) dylib = None"
  shows "map_of (files (fix_dylib macho_host macho_tools out dylib t)) dylib = None"
  using assms
  by (simp add: fix_dylib_def Let_def macho_host_def patch_file_def)

subsection \<open>The macOS rewriter on the output directory\<close>

lemma rewrite_ref_exists_cong:
  "(\<And>q. exists fs q = exists fs' q) \<Longrightarrow> rewrite_ref fs out = rewrite_ref fs' out"
  by (rule ext) (simp add: rewrite_ref_def)

lemma fold_fix_dylib_macho:
  assumes "distinct ps" and "\<not> exists fs0 out" and "\<And>q. exists (files s) q = exists fs0 q"
  shows "map_of (files (fold (fix_dylib macho_host macho_tools out) ps s)) f =
           (if f \<in> set ps
            then map_option (\<lambda>c. \<lparr>install_name = at_rpath (path_name f),
                                   load_commands = map (rewrite_ref fs0 out) (load_commands c)\<rparr>)
                   (map_of (files s) f)
            else map_of (files s) f)"
  using assms(1,3)
proof (induction ps arbitrary: s)
  case Nil
  show ?case by simp
next
  case (Cons p ps)
  let ?t = "fix_dylib macho_host macho_tools out p s"
  have ex: "\<And>q. exists (files ?t) q = exists fs0 q" using Cons.prems(2) by simp
  have ih: "map_of (files (fold (fix_dylib macho_host macho_tools out) ps ?t)) f =
           (if f \<in> set ps
            then map_option (\<lambda>c. \<lparr>install_name = at_rpath (path_name f),
                                   load_commands = map (rewrite_ref fs0 out) (load_commands c)\<rparr>)
                   (map_of (files ?t) f)
            else map_of (files ?t) f)"
    using Cons.IH[OF _ ex] Cons.prems(1) by simp
  show ?case
  proof (cases "f = p")
    case False
    then show ?thesis using ih by (simp add: map_of_fix_dylib_other)
  next
    case True
    have notin: "f \<notin> set ps" using True Cons.prems(1) by simp
    have r: "rewrite_ref (files s) out = rewrite_ref fs0 out"
      by (rule rewrite_ref_exists_cong) (rule Cons.prems(2))
    have nex: "\<not> exists (files s) out" using assms(2) Cons.prems(2) by simp
    have "map_of (files ?t) p =
          map_option (\<lambda>c. \<lparr>install_name = at_rpath (path_name p),
                             load_commands = map (rewrite_ref fs0 out) (load_commands c)\<rparr>)
            (map_of (files s) p)"
    proof (cases "map_of (files s) p")
      case None
      then show ?thesis by (simp add: map_of_fix_dylib_missing)
    next
      case (Some c)
      then show ?thesis using map_of_fix_dylib_macho[OF Some nex] r by simp
    qed
    then show ?thesis using ih True notin by simp
  qed
qed

lemma fnmatch_literal:
  "CHR ''*'' \<notin> set pat \<Longrightarrow> CHR ''?'' \<notin> set pat \<Longrightarrow> fnmatch n pat = (n = pat)"
  by (induction n pat rule: fnmatch.induct) auto

lemma fnmatch_dot_dylib: "fnmatch n ''*.dylib'' = endswith n ''.dylib''"
proof (induction n)
  case Nil
  show ?case by (simp add: endswith_def)
next
  case (Cons c cs)
  have "fnmatch (c # cs) ''.dylib'' = (c # cs = ''.dylib'')"
    by (rule fnmatch_literal) simp_all
  moreover have "endswith (c # cs) ''.dylib'' = (c # cs = ''.dylib'' \<or> endswith cs ''.dylib'')"
    unfolding endswith_suffix by (auto simp: suffix_Cons)
  ultimately show ?case using Cons by auto
qed

lemma glob_dylib_files:
  "(f \<in> set (glob fs d ''*.dylib'')) =
   (exists fs f \<and> anchor f = anchor d \<and>
    (\<exists>n. comps f = comps d @ [n] \<and> endswith n ''.dylib''))"
proof -
  have pat: "comps (Path ''*.dylib'') = [''*.dylib'']"
    by (simp add: Path_def startswith_def)
  have one: "\<And>xs. list_all2 fnmatch xs [''*.dylib''] = (\<exists>n. xs = [n] \<and> endswith n ''.dylib'')"
    by (auto simp: list_all2_Cons2 fnmatch_dot_dylib)
  have "(f \<in> set (glob fs d ''*.dylib'')) =
        (f \<in> fst ` set fs \<and> anchor f = anchor d \<and> take (length (comps d)) (comps f) = comps d \<and>
         (\<exists>n. drop (length (comps d)) (comps f) = [n] \<and> endswith n ''.dylib''))"
    by (simp add: glob_def Let_def pat one)
  also have "\<dots> = (exists fs f \<and> anchor f = anchor d \<and>
       (\<exists>n. comps f = comps d @ [n] \<and> endswith n ''.dylib''))"
    by (auto simp: exists_def map_of_eq_None_iff)
       (metis append_take_drop_id)
  finally show ?thesis .
qed

text \<open>
  C4, as stated, speaks of every copied binary. The rewriter takes the files matching
  \<open>*.dylib\<close> only. \<open>libvips\<close> loads the framework binary \<open>Python\<close>, which the closure builder
  copies like any other; \<open>Python\<close> loads \<open>libz\<close>, also copied. After \<open>main\<close>, the copy of
  \<open>Python\<close> still refers to \<open>libz\<close> by its Homebrew path, although \<open>libz.dylib\<close> is in the
  output directory.
\<close>

theorem framework_not_rewritten_counterexample:
  "file_after (Path ''out/lib/Python'')
     (main_macos 4 linuxbrew macho_host macho_tools macos_request (start framework_fs)) =
     Some \<lparr>install_name = ''/hb/Frameworks/Python'', load_commands = [''/hb/lib/libz.dylib'']\<rparr> \<and>
   file_after (Path ''out/lib/libz.dylib'')
     (main_macos 4 linuxbrew macho_host macho_tools macos_request (start framework_fs)) =
     Some \<lparr>install_name = ''@rpath/libz.dylib'', load_commands = []\<rparr>"
  by (simp add: file_after_def main_macos_def macos_request_def linuxbrew_def framework_fs_def
        macho_host_def macho_tools_def strip_def isspace_def
        first_glob_def glob_def copy_dylibs_recursive_walk start_def Path_def path_str_def
        path_name_def joinpath_def is_absolute_def startswith_def exists_def logger_def copy2_def
        Let_def copy_step_def macos_skip_def macos_pick_def numeral_eq_Suc run_command_def
        fix_library_paths_def fix_dylib_def fix_dependency_def patch_file_def at_rpath_def)

text \<open>
  C4, amended. Let the output directory not be itself a file, and let \<open>otool\<close> and
  \<open>install_name_tool\<close> do what their manuals say. After the macOS rewriter, every file of
  the output directory whose name ends in \<open>.dylib\<close> has the install name \<open>@rpath/\<close> plus its
  own name, and each dependency reference in it is \<open>@rpath/\<close> plus the base name of the
  reference if a file of that base name is in the output directory, and is as before
  otherwise. Every other file is unchanged.
\<close>

theorem fix_library_paths_rewrites_dylibs:
  "(\<not> exists (files s) output_dir \<longrightarrow>
      map_of (files (fix_library_paths macho_host macho_tools output_dir s)) f =
        (if f \<in> set (glob (files s) output_dir ''*.dylib'')
         then map_option
                (\<lambda>c. \<lparr>install_name = ''@rpath/'' @ path_name f,
                       load_commands =
                         map (\<lambda>r. if exists (files s) (joinpath output_dir (path_name (Path r)))
                                   then ''@rpath/'' @ path_name (Path r) else r)
                           (load_commands c)\<rparr>)
                (map_of (files s) f)
         else map_of (files s) f)) \<and>
   (f \<in> set (glob (files s) output_dir ''*.dylib'')) =
     (exists (files s) f \<and> anchor f = anchor output_dir \<and>
      (\<exists>name. comps f = comps output_dir @ [name] \<and> endswith name ''.dylib''))"
proof (intro conjI impI)
  assume n: "\<not> exists (files s) output_dir"
  let ?s1 = "logger INFO ''Fixing library paths for redistribution...'' s"
  have "map_of (files (fold (fix_dylib macho_host macho_tools output_dir)
          (glob (files s) output_dir ''*.dylib'') ?s1)) f =
        (if f \<in> set (glob (files s) output_dir ''*.dylib'')
         then map_option (\<lambda>c. \<lparr>install_name = at_rpath (path_name f),
                   load_commands = map (rewrite_ref (files s) output_dir) (load_commands c)\<rparr>)
                (map_of (files ?s1) f)
         else map_of (files ?s1) f)"
    by (rule fold_fix_dylib_macho[OF glob_distinct n]) simp
  then show "map_of (files (fix_library_paths macho_host macho_tools output_dir s)) f =
        (if f \<in> set (glob (files s) output_dir ''*.dylib'')
         then map_option
                (\<lambda>c. \<lparr>install_name = ''@rpath/'' @ path_name f,
                       load_commands =
                         map (\<lambda>r. if exists (files s) (joinpath output_dir (path_name (Path r)))
                                   then ''@rpath/'' @ path_name (Path r) else r)
                           (load_commands c)\<rparr>)
                (map_of (files s) f)
         else map_of (files s) f)"
    unfolding fix_library_paths_def Let_def rewrite_ref_def[abs_def] at_rpath_def by simp
next
  show "(f \<in> set (glob (files s) output_dir ''*.dylib'')) =
     (exists (files s) f \<and> anchor f = anchor output_dir \<and>
      (\<exists>name. comps f = comps output_dir @ [name] \<and> endswith name ''.dylib''))"
    by (rule glob_dylib_files)
qed

theorem fix_library_paths_rewrites_dylibs_witness:
  "\<not> exists (files (start macho_bundle)) (Path ''/out/lib'') \<and>
   map_of (files (fix_library_paths macho_host macho_tools (Path ''/out/lib'') (start macho_bundle)))
     (Path ''/out/lib/libvips.42.dylib'') =
   Some \<lparr>install_name = ''@rpath/libvips.42.dylib'',
         load_commands = [''@rpath/libglib-2.0.0.dylib'', ''/usr/lib/libSystem.B.dylib'']\<rparr>"
proof -
  have n: "\<not> exists (files (start macho_bundle)) (Path ''/out/lib'')"
    by (simp add: start_def macho_bundle_def exists_def Path_def startswith_def)
  have g: "glob (files (start macho_bundle)) (Path ''/out/lib'') ''*.dylib'' =
           [Path ''/out/lib/libvips.42.dylib'', Path ''/out/lib/libglib-2.0.0.dylib'']"
    by (simp add: glob_def macho_bundle_def start_def Path_def startswith_def Let_def)
  note t = fix_library_paths_rewrites_dylibs[THEN conjunct1, THEN mp, OF n,
      of "Path ''/out/lib/libvips.42.dylib''"]
  show ?thesis
    using n t unfolding g
    by (simp add: start_def macho_bundle_def Path_def startswith_def path_name_def joinpath_def
          is_absolute_def exists_def)
qed

subsection \<open>Destinations lie in the output directory\<close>





subsection \<open>The part of the file system outside the output directory\<close>










subsection \<open>Two runs that do the same\<close>









subsection \<open>Running a closure builder twice\<close>


























end
